theory Spec2Isabelle
  imports Complex_Main
begin

section \<open>Symbolic tensor expressions\<close>

text \<open>
  The optimizer in \<^verbatim>\<open>opendeep/optimization/rmsprop.py\<close> does not compute with numbers: it
  builds a symbolic graph over shared variables. A shared variable is an object with an
  identity; it is modelled by its address in a store of variables. A graph node is a term
  of \<open>expr\<close>; the constructors are the operations that \<^verbatim>\<open>get_updates\<close> applies
  (\<^verbatim>\<open>+\<close>, \<^verbatim>\<open>*\<close>, unary \<^verbatim>\<open>-\<close>, \<^verbatim>\<open>/\<close>, \<^verbatim>\<open>T.sqr\<close>, \<^verbatim>\<open>T.sqrt\<close>, \<^verbatim>\<open>T.maximum\<close>), the leaves are
  shared variables, numeric constants and any other symbolic input of the graph.
  Python floats are idealised as real numbers.
\<close>

type_synonym addr = nat

datatype expr =
    Shared addr
  | Const real
  | Input nat
  | T_add expr expr
  | T_mul expr expr
  | T_neg expr
  | T_true_div expr expr
  | T_sqr expr
  | T_sqrt expr
  | T_maximum expr expr

text \<open>
  A Python value that takes part in the arithmetic of \<^verbatim>\<open>get_updates\<close> is a float or a
  symbolic tensor. Arithmetic on two floats is done by Python and gives a float; as soon
  as one operand is symbolic the operator builds a graph node, the float operand becoming
  a constant leaf in the position it was written.
\<close>

datatype pyval = PyFloat real | Tensor expr

fun as_tensor :: "pyval \<Rightarrow> expr" where
  "as_tensor (PyFloat a) = Const a"
| "as_tensor (Tensor e) = e"

fun py_mul :: "pyval \<Rightarrow> pyval \<Rightarrow> pyval" where
  "py_mul (PyFloat a) (PyFloat b) = PyFloat (a * b)"
| "py_mul x y = Tensor (T_mul (as_tensor x) (as_tensor y))"

fun py_neg :: "pyval \<Rightarrow> pyval" where
  "py_neg (PyFloat a) = PyFloat (- a)"
| "py_neg (Tensor e) = Tensor (T_neg e)"

fun py_add :: "pyval \<Rightarrow> pyval \<Rightarrow> pyval" where
  "py_add (PyFloat a) (PyFloat b) = PyFloat (a + b)"
| "py_add x y = Tensor (T_add (as_tensor x) (as_tensor y))"

text \<open>
  The division of \<^verbatim>\<open>get_updates\<close> always has the symbolic \<^verbatim>\<open>rms_grad_t\<close> as divisor, so
  it always builds a node.
\<close>

definition py_div_tensor :: "pyval \<Rightarrow> expr \<Rightarrow> expr" where
  "py_div_tensor x d = T_true_div (as_tensor x) d"

subsection \<open>Elementwise value of an expression\<close>

text \<open>
  Every operation above works elementwise, so one element of the value of a graph depends
  on one element of each leaf. \<open>eval sh inp e\<close> is that element, given the element \<open>sh a\<close>
  of every shared variable and \<open>inp i\<close> of every other input. The square root of a
  negative number and a quotient by zero are no real number: the result is \<open>None\<close>, and
  every operation passes an undefined operand on.
\<close>

fun eval :: "(addr \<Rightarrow> real) \<Rightarrow> (nat \<Rightarrow> real) \<Rightarrow> expr \<Rightarrow> real option" where
  "eval sh inp (Shared a) = Some (sh a)"
| "eval sh inp (Const c) = Some c"
| "eval sh inp (Input i) = Some (inp i)"
| "eval sh inp (T_add x y) =
     (case (eval sh inp x, eval sh inp y) of
        (Some a, Some b) \<Rightarrow> Some (a + b) | _ \<Rightarrow> None)"
| "eval sh inp (T_mul x y) =
     (case (eval sh inp x, eval sh inp y) of
        (Some a, Some b) \<Rightarrow> Some (a * b) | _ \<Rightarrow> None)"
| "eval sh inp (T_neg x) =
     (case eval sh inp x of Some a \<Rightarrow> Some (- a) | None \<Rightarrow> None)"
| "eval sh inp (T_true_div x y) =
     (case (eval sh inp x, eval sh inp y) of
        (Some a, Some b) \<Rightarrow> (if b = 0 then None else Some (a / b)) | _ \<Rightarrow> None)"
| "eval sh inp (T_sqr x) =
     (case eval sh inp x of Some a \<Rightarrow> Some (a * a) | None \<Rightarrow> None)"
| "eval sh inp (T_sqrt x) =
     (case eval sh inp x of
        Some a \<Rightarrow> (if a < 0 then None else Some (sqrt a)) | None \<Rightarrow> None)"
| "eval sh inp (T_maximum x y) =
     (case (eval sh inp x, eval sh inp y) of
        (Some a, Some b) \<Rightarrow> Some (max a b) | _ \<Rightarrow> None)"

section \<open>Shared variables and the optimizer object\<close>

text \<open>
  The value held by a shared variable is an array: a shape and the elements in row-major
  order. \<^verbatim>\<open>param.get_value() * 0.\<close> multiplies every element by the float \<open>0\<close> and
  keeps the shape.
\<close>

record ndarray =
  shape :: "nat list"
  elems :: "real list"

definition ndarray_mul_scalar :: "ndarray \<Rightarrow> real \<Rightarrow> ndarray" where
  "ndarray_mul_scalar v c = v\<lparr>elems := map (\<lambda>x. x * c) (elems v)\<rparr>"

record shared_var =
  var_name :: "string option"
  var_value :: ndarray

datatype log_level = DEBUG | WARNING

datatype error =
    ValueError string
  | AssertionError string
  | KeyError addr
  | TypeError string

text \<open>
  A Python float as a caller can pass it to the constructor: a finite value, idealised as
  a real number, or one of \<^verbatim>\<open>inf\<close>, \<^verbatim>\<open>-inf\<close> and \<^verbatim>\<open>nan\<close>. \<open>float_gt_zero\<close> is the
  comparison \<^verbatim>\<open>x > 0.\<close>: true for a positive finite value and for \<^verbatim>\<open>inf\<close>, false for
  \<^verbatim>\<open>-inf\<close> and for \<^verbatim>\<open>nan\<close>.
\<close>

datatype pyfloat = Finite real | PosInf | NegInf | NaN



text \<open>
  The attributes of the optimizer object that \<^verbatim>\<open>RMSProp\<close> reads. The first four are set
  by the constructor of the base class \<^verbatim>\<open>Optimizer\<close>, which is not among the sources;
  \<^verbatim>\<open>epsilon\<close> and \<^verbatim>\<open>mean_square_grads\<close> are set by \<^verbatim>\<open>RMSProp.__init__\<close>.
  \<^verbatim>\<open>lr_scalers\<close> is a dictionary keyed by parameter, \<^verbatim>\<open>mean_square_grads\<close> an
  \<^verbatim>\<open>OrderedDict\<close> keyed by parameter name.
\<close>

record optimizer =
  learning_rate :: pyval
  lr_scalers :: "(addr \<times> pyval) list"
  decay :: real
  max_scaling :: pyfloat

record rmsprop = optimizer +
  epsilon :: real
  mean_square_grads :: "(string \<times> addr) list"

text \<open>
  The part of the program state that \<^verbatim>\<open>get_updates\<close> can touch: the optimizer object,
  the store of shared variables, the store of dictionaries from variables to expressions
  (the gradient dictionary that is passed in and the \<^verbatim>\<open>OrderedDict\<close> of updates that is
  built are both objects of this kind, so that whether one call can write into the
  other's object is a question about addresses), the next free address, and the log.
\<close>

record state =
  self :: rmsprop
  vars :: "addr \<Rightarrow> shared_var"
  dicts :: "addr \<Rightarrow> (addr \<times> expr) list"
  next_addr :: addr
  logged :: "(log_level \<times> string) list"

subsection \<open>Dictionaries\<close>

text \<open>
  \<^verbatim>\<open>d[k] = v\<close> on an \<^verbatim>\<open>OrderedDict\<close>: a key already present keeps its position and gets
  the new value, a new key goes to the end.
\<close>

fun od_set :: "'k \<Rightarrow> 'v \<Rightarrow> ('k \<times> 'v) list \<Rightarrow> ('k \<times> 'v) list" where
  "od_set k v [] = [(k, v)]"
| "od_set k v ((k', v') # od) =
     (if k' = k then (k, v) # od else (k', v') # od_set k v od)"

definition od_keys :: "('k \<times> 'v) list \<Rightarrow> 'k list" where
  "od_keys od = map fst od"

definition od_contains :: "'k \<Rightarrow> ('k \<times> 'v) list \<Rightarrow> bool" where
  "od_contains k od = (k \<in> set (od_keys od))"

definition dict_get :: "('k \<times> 'v) list \<Rightarrow> 'k \<Rightarrow> 'v \<Rightarrow> 'v" where
  "dict_get d k dflt = (case map_of d k of None \<Rightarrow> dflt | Some v \<Rightarrow> v)"

subsection \<open>Creating and writing objects\<close>

text \<open>
  Modelled from the spec: \<^verbatim>\<open>sharedX\<close> (imported from the package \<^verbatim>\<open>opendeep\<close>) is not
  among the sources. By the glossary a shared variable is a persistent tensor value;
  \<^verbatim>\<open>sharedX(value)\<close> creates a new one holding \<open>value\<close>, with no name. The new object gets
  the next free address.
\<close>

definition sharedX :: "ndarray \<Rightarrow> state \<Rightarrow> addr \<times> state" where
  "sharedX v s =
     (next_addr s,
      s\<lparr>vars := (vars s)(next_addr s := \<lparr>var_name = None, var_value = v\<rparr>),
        next_addr := Suc (next_addr s)\<rparr>)"

definition new_OrderedDict :: "state \<Rightarrow> addr \<times> state" where
  "new_OrderedDict s =
     (next_addr s,
      s\<lparr>dicts := (dicts s)(next_addr s := []), next_addr := Suc (next_addr s)\<rparr>)"

definition set_name :: "addr \<Rightarrow> string \<Rightarrow> state \<Rightarrow> state" where
  "set_name a nm s = s\<lparr>vars := (vars s)(a := (vars s a)\<lparr>var_name := Some nm\<rparr>)\<rparr>"

definition dict_setitem :: "addr \<Rightarrow> addr \<Rightarrow> expr \<Rightarrow> state \<Rightarrow> state" where
  "dict_setitem d k v s = s\<lparr>dicts := (dicts s)(d := od_set k v (dicts s d))\<rparr>"

definition store_mean_square_grad :: "string \<Rightarrow> addr \<Rightarrow> state \<Rightarrow> state" where
  "store_mean_square_grad nm a s =
     s\<lparr>self := (self s)\<lparr>mean_square_grads := od_set nm a (mean_square_grads (self s))\<rparr>\<rparr>"

definition log_msg :: "log_level \<Rightarrow> string \<Rightarrow> state \<Rightarrow> state" where
  "log_msg lvl msg s = s\<lparr>logged := logged s @ [(lvl, msg)]\<rparr>"

section \<open>RMSProp.get\_updates\<close>

text \<open>The expressions of lines 113 to 124, in the order and shape they are written.\<close>

definition new_mean_squared_grad :: "rmsprop \<Rightarrow> addr \<Rightarrow> expr \<Rightarrow> expr" where
  "new_mean_squared_grad slf mean_square_grad g =
     as_tensor
       (py_add (py_mul (PyFloat (decay slf)) (Tensor (Shared mean_square_grad)))
               (py_mul (PyFloat (1 - decay slf)) (Tensor (T_sqr g))))"

definition scaled_lr :: "rmsprop \<Rightarrow> addr \<Rightarrow> pyval" where
  "scaled_lr slf param =
     py_mul (dict_get (lr_scalers slf) param (PyFloat 1)) (learning_rate slf)"

definition rms_grad_t :: "rmsprop \<Rightarrow> addr \<Rightarrow> expr \<Rightarrow> expr" where
  "rms_grad_t slf mean_square_grad g =
     T_maximum (T_sqrt (new_mean_squared_grad slf mean_square_grad g))
               (Const (epsilon slf))"

definition delta_x_t :: "rmsprop \<Rightarrow> addr \<Rightarrow> addr \<Rightarrow> expr \<Rightarrow> expr" where
  "delta_x_t slf param mean_square_grad g =
     py_div_tensor (py_mul (py_neg (scaled_lr slf param)) (Tensor g))
                   (rms_grad_t slf mean_square_grad g)"

definition warning_text :: "string \<Rightarrow> string" where
  "warning_text nm =
     ''Calling get_updates more than once on the gradients of `'' @ nm @
     ''` may make monitored values incorrect.''"

text \<open>
  One round of the loop over the gradient dictionary (lines 97 to 124); \<open>grads\<close> and
  \<open>updates\<close> are the addresses of the two dictionaries. The accumulator is created before
  the name of the parameter is checked, and the dictionary of accumulators is written
  before the gradient is looked up.
\<close>

definition get_updates_body ::
  "addr \<Rightarrow> addr \<Rightarrow> addr \<Rightarrow> state \<Rightarrow> state \<times> (error + addr)" where
  "get_updates_body grads updates param s =
     (let (mean_square_grad, s1) =
            sharedX (ndarray_mul_scalar (var_value (vars s param)) 0) s
      in case var_name (vars s1 param) of
           None \<Rightarrow> (s1, Inl (ValueError ''Model parameters must be named.''))
         | Some nm \<Rightarrow>
             let s2 = set_name mean_square_grad (''mean_square_grad_'' @ nm) s1;
                 s3 = (if od_contains nm (mean_square_grads (self s2))
                       then log_msg WARNING (warning_text nm) s2 else s2);
                 s4 = store_mean_square_grad nm mean_square_grad s3
             in case map_of (dicts s4 grads) param of
                  None \<Rightarrow> (s4, Inl (KeyError param))
                | Some g \<Rightarrow>
                    let s5 = dict_setitem updates mean_square_grad
                               (new_mean_squared_grad (self s4) mean_square_grad g) s4;
                        s6 = dict_setitem updates param
                               (T_add (Shared param)
                                  (delta_x_t (self s5) param mean_square_grad g)) s5
                    in (s6, Inr updates))"

text \<open>
  The loop runs over the keys that the gradient dictionary has when the loop starts, and
  stops at the first exception.
\<close>

fun get_updates_loop ::
  "addr \<Rightarrow> addr \<Rightarrow> addr list \<Rightarrow> state \<Rightarrow> state \<times> (error + addr)" where
  "get_updates_loop grads updates [] s = (s, Inr updates)"
| "get_updates_loop grads updates (param # rest) s =
     (case get_updates_body grads updates param s of
        (s', Inl e) \<Rightarrow> (s', Inl e)
      | (s', Inr _) \<Rightarrow> get_updates_loop grads updates rest s')"

definition get_updates :: "addr \<Rightarrow> state \<Rightarrow> state \<times> (error + addr)" where
  "get_updates grads s =
     (let s0 = log_msg DEBUG ''Setting up RMSProp for optimizer...'' s;
          (updates, s1) = new_OrderedDict s0
      in get_updates_loop grads updates (od_keys (dicts s1 grads)) s1)"

section \<open>Calls that can happen, and the expected result\<close>

text \<open>
  In a running program the gradient dictionary is an object that exists before the call,
  its keys are pairwise different objects (it is a dictionary), and each key is a shared
  variable that exists before the call. \<open>wf_call\<close> says so in terms of addresses: all of
  them lie below the next free address.
\<close>

definition wf_call :: "addr \<Rightarrow> state \<Rightarrow> bool" where
  "wf_call grads s \<longleftrightarrow>
     grads < next_addr s \<and> distinct (od_keys (dicts s grads)) \<and>
     (\<forall>p\<in>set (od_keys (dicts s grads)). p < next_addr s)"

definition all_named :: "addr \<Rightarrow> state \<Rightarrow> bool" where
  "all_named grads s \<longleftrightarrow> (\<forall>p\<in>set (od_keys (dicts s grads)). var_name (vars s p) \<noteq> None)"

text \<open>The state in which the loop starts: the debug line is logged, \<open>updates\<close> is created.\<close>

definition entry_state :: "state \<Rightarrow> state" where
  "entry_state s = snd (new_OrderedDict (log_msg DEBUG ''Setting up RMSProp for optimizer...'' s))"

text \<open>A parameter that exists, is named and is a key of the gradient dictionary.\<close>

definition good_param :: "addr \<Rightarrow> state \<Rightarrow> addr \<Rightarrow> bool" where
  "good_param gr s p \<longleftrightarrow>
     p < next_addr s \<and> var_name (vars s p) \<noteq> None \<and> map_of (dicts s gr) p \<noteq> None"

text \<open>Two optimizer objects that agree on everything but the stored accumulators.\<close>

definition same_hyper :: "rmsprop \<Rightarrow> rmsprop \<Rightarrow> bool" where
  "same_hyper a b \<longleftrightarrow>
     learning_rate a = learning_rate b \<and> lr_scalers a = lr_scalers b \<and>
     decay a = decay b \<and> max_scaling a = max_scaling b \<and> epsilon a = epsilon b"

text \<open>
  The dictionary that a call is expected to return: for each entry \<open>(p, g)\<close> of the gradient
  dictionary in turn, the accumulator (the \<open>n\<close>-th object created) with the new running
  average, then the parameter with its new value.
\<close>

fun expected_updates :: "rmsprop \<Rightarrow> addr \<Rightarrow> (addr \<times> expr) list \<Rightarrow> (addr \<times> expr) list" where
  "expected_updates slf n [] = []"
| "expected_updates slf n ((p, g) # gs) =
     (n, new_mean_squared_grad slf n g) #
     (p, T_add (Shared p) (delta_x_t slf p n g)) #
     expected_updates slf (Suc n) gs"

text \<open>
  What \<^verbatim>\<open>self.mean_square_grads\<close> is expected to hold after the parameters with the names
  \<open>nms\<close> have been handled, the first accumulator being the object \<open>n\<close>.
\<close>

fun stored_after :: "(string \<times> addr) list \<Rightarrow> addr \<Rightarrow> string list \<Rightarrow> (string \<times> addr) list" where
  "stored_after m n [] = m"
| "stored_after m n (nm # nms) = stored_after (od_set nm n m) (Suc n) nms"

text \<open>
  The warnings that are expected in the log after the parameters with the names \<open>nms\<close>
  have been handled, \<open>m\<close> being \<^verbatim>\<open>self.mean_square_grads\<close> before.
\<close>

fun expected_warnings ::
  "(string \<times> addr) list \<Rightarrow> addr \<Rightarrow> string list \<Rightarrow> (log_level \<times> string) list" where
  "expected_warnings m n [] = []"
| "expected_warnings m n (nm # nms) =
     (if od_contains nm m then [(WARNING, warning_text nm)] else []) @
     expected_warnings (od_set nm n m) (Suc n) nms"



section \<open>RMSProp.\_\_init\_\_\<close>










section \<open>A concrete optimizer and model\<close>

text \<open>
  Two parameters \<open>W\<close> (address 0) and \<open>b\<close> (address 1), a gradient dictionary (address 2)
  that maps them to two symbolic inputs, and an optimizer with a scaler for \<open>b\<close>.
\<close>

definition ex_self :: rmsprop where
  "ex_self = \<lparr>learning_rate = PyFloat (1 / 10), lr_scalers = [(1, PyFloat 2)],
     decay = 3 / 4, max_scaling = Finite 100000, epsilon = 1 / 100000,
     mean_square_grads = []\<rparr>"

definition ex_state :: state where
  "ex_state = \<lparr>self = ex_self,
     vars = (\<lambda>_. \<lparr>var_name = None, var_value = \<lparr>shape = [], elems = []\<rparr>\<rparr>)
        (0 := \<lparr>var_name = Some ''W'', var_value = \<lparr>shape = [2], elems = [1, 2]\<rparr>\<rparr>,
         1 := \<lparr>var_name = Some ''b'', var_value = \<lparr>shape = [1], elems = [5]\<rparr>\<rparr>),
     dicts = (\<lambda>_. [])(2 := [(0, Input 0), (1, Input 1)]),
     next_addr = 3, logged = []\<rparr>"








text \<open>The same model, but the second parameter has no name.\<close>

definition ex_unnamed_state :: state where
  "ex_unnamed_state = ex_state
     \<lparr>vars := (vars ex_state)(1 := \<lparr>var_name = None, var_value = \<lparr>shape = [1], elems = [5]\<rparr>\<rparr>)\<rparr>"







text \<open>
  Values for one element: every shared variable holds 0, every input holds 2, or every
  input holds 0.
\<close>

definition ex_sh :: "addr \<Rightarrow> real" where
  "ex_sh a = 0"

definition ex_inp :: "nat \<Rightarrow> real" where
  "ex_inp i = 2"


section \<open>Properties of one round and of the loop\<close>

lemmas step_defs = sharedX_def set_name_def dict_setitem_def store_mean_square_grad_def
  log_msg_def od_contains_def

lemma od_set_fresh: "k \<notin> set (od_keys od) \<Longrightarrow> od_set k v od = od @ [(k, v)]"
  by (induction od) (auto simp: od_keys_def)

lemma od_keys_od_set:
  "od_keys (od_set k v od) = (if k \<in> set (od_keys od) then od_keys od else od_keys od @ [k])"
  by (induction od) (force simp: od_keys_def)+

lemma map_of_od_set: "map_of (od_set k v od) = (map_of od)(k \<mapsto> v)"
  by (induction od) (auto simp: fun_eq_iff)

lemma body_next_addr:
  "next_addr (fst (get_updates_body gr u p s)) = Suc (next_addr s)"
  by (simp add: get_updates_body_def step_defs Let_def split: option.splits)

lemma body_vars_old:
  "a \<noteq> next_addr s \<Longrightarrow> vars (fst (get_updates_body gr u p s)) a = vars s a"
  by (simp add: get_updates_body_def step_defs Let_def split: option.splits)

lemma body_dicts_other:
  "a \<noteq> u \<Longrightarrow> dicts (fst (get_updates_body gr u p s)) a = dicts s a"
  by (simp add: get_updates_body_def step_defs Let_def split: option.splits)

lemma body_self_frame:
  "learning_rate (self (fst (get_updates_body gr u p s))) = learning_rate (self s) \<and>
   lr_scalers (self (fst (get_updates_body gr u p s))) = lr_scalers (self s) \<and>
   decay (self (fst (get_updates_body gr u p s))) = decay (self s) \<and>
   max_scaling (self (fst (get_updates_body gr u p s))) = max_scaling (self s) \<and>
   epsilon (self (fst (get_updates_body gr u p s))) = epsilon (self s)"
  by (simp add: get_updates_body_def step_defs Let_def split: option.splits)

lemma body_unnamed:
  "p \<noteq> next_addr s \<Longrightarrow> var_name (vars s p) = None \<Longrightarrow>
   snd (get_updates_body gr u p s) = Inl (ValueError ''Model parameters must be named.'') \<and>
   self (fst (get_updates_body gr u p s)) = self s \<and>
   logged (fst (get_updates_body gr u p s)) = logged s \<and>
   dicts (fst (get_updates_body gr u p s)) = dicts s"
  by (simp add: get_updates_body_def step_defs Let_def split: option.splits)

lemma body_named:
  assumes "p \<noteq> next_addr s" "var_name (vars s p) = Some nm" "map_of (dicts s gr) p = Some g"
  shows "snd (get_updates_body gr u p s) = Inr u"
    and "dicts (fst (get_updates_body gr u p s)) u =
           od_set p (T_add (Shared p) (delta_x_t (self s) p (next_addr s) g))
             (od_set (next_addr s) (new_mean_squared_grad (self s) (next_addr s) g) (dicts s u))"
    and "mean_square_grads (self (fst (get_updates_body gr u p s))) =
           od_set nm (next_addr s) (mean_square_grads (self s))"
    and "vars (fst (get_updates_body gr u p s)) (next_addr s) =
           \<lparr>var_name = Some (''mean_square_grad_'' @ nm),
            var_value = ndarray_mul_scalar (var_value (vars s p)) 0\<rparr>"
    and "logged (fst (get_updates_body gr u p s)) =
           (if od_contains nm (mean_square_grads (self s))
            then logged s @ [(WARNING, warning_text nm)] else logged s)"
  using assms
  by (simp_all add: get_updates_body_def step_defs Let_def delta_x_t_def rms_grad_t_def
        new_mean_squared_grad_def scaled_lr_def split: option.splits)


lemma same_hyper_refl: "same_hyper a a"
  by (simp add: same_hyper_def)

lemma same_hyper_trans: "same_hyper a b \<Longrightarrow> same_hyper b c \<Longrightarrow> same_hyper a c"
  by (simp add: same_hyper_def)

lemma same_hyper_exprs:
  assumes "same_hyper a b"
  shows "new_mean_squared_grad a = new_mean_squared_grad b"
    and "delta_x_t a = delta_x_t b"
  using assms
  by (simp_all add: same_hyper_def fun_eq_iff new_mean_squared_grad_def delta_x_t_def
        rms_grad_t_def scaled_lr_def)

lemma same_hyper_expected:
  "same_hyper a b \<Longrightarrow> expected_updates a n gs = expected_updates b n gs"
  by (induction gs arbitrary: n) (auto simp: same_hyper_exprs)

lemma body_same_hyper: "same_hyper (self (fst (get_updates_body gr u p s))) (self s)"
  using body_self_frame [of gr u p s] by (simp add: same_hyper_def)

lemma loop_unfold:
  "get_updates_loop gr u (p # ps) s =
     (case snd (get_updates_body gr u p s) of
        Inl e \<Rightarrow> (fst (get_updates_body gr u p s), Inl e)
      | Inr _ \<Rightarrow> get_updates_loop gr u ps (fst (get_updates_body gr u p s)))"
  by (simp split: prod.splits sum.splits)

declare get_updates_loop.simps(2) [simp del]

lemma loop_vars_old:
  "a < next_addr s \<Longrightarrow> vars (fst (get_updates_loop gr u ps s)) a = vars s a"
proof (induction ps arbitrary: s)
  case Nil
  show ?case by simp
next
  case (Cons p ps)
  let ?s' = "fst (get_updates_body gr u p s)"
  have old: "vars ?s' a = vars s a"
    using Cons.prems by (simp add: body_vars_old)
  have "a < next_addr ?s'"
    using Cons.prems by (simp add: body_next_addr)
  then have "vars (fst (get_updates_loop gr u ps ?s')) a = vars ?s' a"
    by (rule Cons.IH)
  with old show ?case
    by (simp add: loop_unfold split: sum.splits)
qed

lemma loop_dicts_other:
  "a \<noteq> u \<Longrightarrow> dicts (fst (get_updates_loop gr u ps s)) a = dicts s a"
proof (induction ps arbitrary: s)
  case Nil
  show ?case by simp
next
  case (Cons p ps)
  then show ?case
    by (simp add: loop_unfold body_dicts_other split: sum.splits)
qed

lemma loop_same_hyper: "same_hyper (self (fst (get_updates_loop gr u ps s))) (self s)"
proof (induction ps arbitrary: s)
  case Nil
  show ?case by (simp add: same_hyper_refl)
next
  case (Cons p ps)
  let ?s' = "fst (get_updates_body gr u p s)"
  have "same_hyper (self (fst (get_updates_loop gr u ps ?s'))) (self s)"
    using Cons.IH [of ?s'] body_same_hyper [of gr u p s] by (rule same_hyper_trans)
  then show ?case
    by (simp add: loop_unfold body_same_hyper split: sum.splits)
qed

lemma good_param_body:
  assumes "gr \<noteq> u" "good_param gr s q"
  shows "good_param gr (fst (get_updates_body gr u p s)) q"
  using assms by (simp add: good_param_def body_next_addr body_vars_old body_dicts_other)

lemma body_good:
  assumes "good_param gr s p"
  shows "snd (get_updates_body gr u p s) = Inr u"
proof -
  from assms obtain nm g where "p \<noteq> next_addr s" "var_name (vars s p) = Some nm"
    "map_of (dicts s gr) p = Some g"
    by (auto simp: good_param_def)
  then show ?thesis by (rule body_named(1))
qed

lemma loop_good:
  assumes "gr \<noteq> u" "\<forall>p\<in>set ps. good_param gr s p"
  shows "snd (get_updates_loop gr u ps s) = Inr u \<and>
         next_addr (fst (get_updates_loop gr u ps s)) = next_addr s + length ps"
  using assms
proof (induction ps arbitrary: s)
  case Nil
  show ?case by simp
next
  case (Cons p ps)
  let ?s' = "fst (get_updates_body gr u p s)"
  have ok: "snd (get_updates_body gr u p s) = Inr u"
    using Cons.prems by (simp add: body_good)
  have "\<forall>q\<in>set ps. good_param gr ?s' q"
    using Cons.prems by (simp add: good_param_body)
  with Cons.IH [of ?s'] Cons.prems(1) show ?case
    by (simp add: loop_unfold ok body_next_addr)
qed


lemma loop_updates:
  assumes "gr \<noteq> u" "distinct (map fst gs)"
    and "\<forall>(p, g)\<in>set gs. p < next_addr s \<and> var_name (vars s p) \<noteq> None \<and>
           map_of (dicts s gr) p = Some g"
    and "\<forall>k\<in>set (od_keys (dicts s u)). k < next_addr s \<and> k \<notin> fst ` set gs"
  shows "dicts (fst (get_updates_loop gr u (map fst gs) s)) u =
           dicts s u @ expected_updates (self s) (next_addr s) gs"
  using assms
proof (induction gs arbitrary: s)
  case Nil
  show ?case by simp
next
  case (Cons pg gs)
  obtain p g where pg: "pg = (p, g)" by (cases pg)
  let ?n = "next_addr s"
  let ?s' = "fst (get_updates_body gr u p s)"
  from Cons.prems(3) pg obtain nm where p: "p < ?n" "var_name (vars s p) = Some nm"
    "map_of (dicts s gr) p = Some g"
    by auto
  have pn: "p \<noteq> ?n" using p(1) by simp
  have ok: "snd (get_updates_body gr u p s) = Inr u"
    using pn p(2,3) by (rule body_named(1))
  have fresh_n: "?n \<notin> set (od_keys (dicts s u))"
    using Cons.prems(4) by auto
  have fresh_p: "p \<notin> set (od_keys (dicts s u))"
    using Cons.prems(4) pg by auto
  have d': "dicts ?s' u = dicts s u @
      [(?n, new_mean_squared_grad (self s) ?n g),
       (p, T_add (Shared p) (delta_x_t (self s) p ?n g))]"
    using fresh_n fresh_p pn
    by (simp add: body_named(2) [OF pn p(2,3)] od_set_fresh od_keys_def)
  have keys': "od_keys (dicts ?s' u) = od_keys (dicts s u) @ [?n, p]"
    by (simp add: d' od_keys_def)
  have gs_lt: "\<forall>q\<in>fst ` set gs. q < ?n"
    using Cons.prems(3) by auto
  have h3: "\<forall>(q, h)\<in>set gs. q < next_addr ?s' \<and> var_name (vars ?s' q) \<noteq> None \<and>
              map_of (dicts ?s' gr) q = Some h"
    using Cons.prems(1,3)
    by (auto simp: body_next_addr body_vars_old body_dicts_other)
  have h4: "\<forall>k\<in>set (od_keys (dicts ?s' u)). k < next_addr ?s' \<and> k \<notin> fst ` set gs"
    using Cons.prems(2,4) gs_lt p(1) pg
    by (auto simp: keys' body_next_addr less_Suc_eq)
  have "distinct (map fst gs)" using Cons.prems(2) by simp
  from Cons.IH [OF Cons.prems(1) this h3 h4]
  have "dicts (fst (get_updates_loop gr u (map fst gs) ?s')) u =
          dicts ?s' u @ expected_updates (self s) (Suc ?n) gs"
    by (simp add: body_next_addr same_hyper_expected [OF body_same_hyper])
  then show ?case
    by (simp add: pg loop_unfold ok d')
qed

lemma expected_updates_length: "length (expected_updates slf n gs) = 2 * length gs"
  by (induction slf n gs rule: expected_updates.induct) simp_all

lemma expected_updates_nth:
  "i < length gs \<Longrightarrow>
   expected_updates slf n gs ! (2 * i) =
     (n + i, new_mean_squared_grad slf (n + i) (snd (gs ! i))) \<and>
   expected_updates slf n gs ! (2 * i + 1) =
     (fst (gs ! i),
      T_add (Shared (fst (gs ! i))) (delta_x_t slf (fst (gs ! i)) (n + i) (snd (gs ! i))))"
proof (induction slf n gs arbitrary: i rule: expected_updates.induct)
  case (1 slf n)
  then show ?case by simp
next
  case (2 slf n p g gs)
  show ?case
  proof (cases i)
    case 0
    then show ?thesis by simp
  next
    case (Suc j)
    with "2.prems" have "j < length gs" by simp
    from "2.IH" [OF this] Suc show ?thesis by simp
  qed
qed

lemma expected_updates_keys:
  "od_keys (expected_updates slf n gs) =
     concat (map (\<lambda>i. [n + i, fst (gs ! i)]) [0..<length gs])"
proof (induction slf n gs rule: expected_updates.induct)
  case (1 slf n)
  show ?case by (simp add: od_keys_def)
next
  case (2 slf n p g gs)
  have "map (\<lambda>i. [n + i, fst (((p, g) # gs) ! i)]) [0..<length ((p, g) # gs)] =
        [n, p] # map (\<lambda>i. [Suc n + i, fst (gs ! i)]) [0..<length gs]"
    by (simp add: upt_conv_Cons map_Suc_upt [symmetric] del: upt_Suc)
  with "2.IH" show ?case by (simp add: od_keys_def)
qed

lemma expected_updates_key_set:
  "set (od_keys (expected_updates slf n gs)) = {n..<n + length gs} \<union> fst ` set gs"
proof (induction slf n gs rule: expected_updates.induct)
  case (1 slf n)
  show ?case by (simp add: od_keys_def)
next
  case (2 slf n p g gs)
  then show ?case by (auto simp: od_keys_def)
qed

lemma expected_updates_distinct:
  "distinct (map fst gs) \<Longrightarrow> \<forall>p\<in>fst ` set gs. p < n \<Longrightarrow>
   distinct (od_keys (expected_updates slf n gs))"
proof (induction slf n gs rule: expected_updates.induct)
  case (1 slf n)
  show ?case by (simp add: od_keys_def)
next
  case (2 slf n p g gs)
  have ks: "set (map fst (expected_updates slf (Suc n) gs)) =
            {Suc n..<Suc n + length gs} \<union> fst ` set gs"
    using expected_updates_key_set [of slf "Suc n" gs] by (simp add: od_keys_def)
  have "distinct (od_keys (expected_updates slf (Suc n) gs))"
    using "2.prems" by (intro "2.IH") auto
  with "2.prems" ks show ?case
    by (auto simp: od_keys_def)
qed


lemma entry_state_simps:
  "self (entry_state s) = self s"
  "vars (entry_state s) = vars s"
  "next_addr (entry_state s) = Suc (next_addr s)"
  "dicts (entry_state s) (next_addr s) = []"
  "a \<noteq> next_addr s \<Longrightarrow> dicts (entry_state s) a = dicts s a"
  "logged (entry_state s) = logged s @ [(DEBUG, ''Setting up RMSProp for optimizer...'')]"
  by (simp_all add: entry_state_def new_OrderedDict_def log_msg_def)

lemma get_updates_unfold:
  "get_updates grads s =
     get_updates_loop grads (next_addr s) (od_keys (dicts (entry_state s) grads)) (entry_state s)"
  by (simp add: get_updates_def entry_state_def new_OrderedDict_def log_msg_def Let_def)

lemma map_of_keys: "p \<in> set (od_keys d) \<Longrightarrow> map_of d p \<noteq> None"
  by (simp add: od_keys_def map_of_eq_None_iff)

lemma wf_good:
  assumes "wf_call grads s" "all_named grads s" "p \<in> set (od_keys (dicts s grads))"
  shows "good_param grads (entry_state s) p"
  using assms
  by (auto simp: wf_call_def all_named_def good_param_def entry_state_simps less_Suc_eq
        dest: map_of_keys)

lemma get_updates_returns:
  assumes "wf_call grads s" "all_named grads s"
  shows "snd (get_updates grads s) = Inr (next_addr s)"
    and "next_addr (fst (get_updates grads s)) =
           Suc (next_addr s) + length (dicts s grads)"
proof -
  have ne: "grads \<noteq> next_addr s" using assms(1) by (simp add: wf_call_def)
  have "\<forall>p\<in>set (od_keys (dicts s grads)). good_param grads (entry_state s) p"
    using assms by (simp add: wf_good)
  from loop_good [OF ne this]
  show "snd (get_updates grads s) = Inr (next_addr s)"
    and "next_addr (fst (get_updates grads s)) =
           Suc (next_addr s) + length (dicts s grads)"
    using ne by (simp_all add: get_updates_unfold entry_state_simps od_keys_def)
qed

lemma get_updates_dict:
  assumes "wf_call grads s" "all_named grads s"
  shows "dicts (fst (get_updates grads s)) (next_addr s) =
           expected_updates (self s) (Suc (next_addr s)) (dicts s grads)"
proof -
  have ne: "grads \<noteq> next_addr s" using assms(1) by (simp add: wf_call_def)
  have d: "distinct (map fst (dicts s grads))"
    using assms(1) by (simp add: wf_call_def od_keys_def)
  have h3: "\<forall>(p, g)\<in>set (dicts s grads).
              p < next_addr (entry_state s) \<and> var_name (vars (entry_state s) p) \<noteq> None \<and>
              map_of (dicts (entry_state s) grads) p = Some g"
    using assms d ne
    by (auto simp: wf_call_def all_named_def entry_state_simps od_keys_def less_Suc_eq)
  have h4: "\<forall>k\<in>set (od_keys (dicts (entry_state s) (next_addr s))).
              k < next_addr (entry_state s) \<and> k \<notin> fst ` set (dicts s grads)"
    by (simp add: entry_state_simps od_keys_def)
  from loop_updates [OF ne d h3 h4] ne show ?thesis
    by (simp add: get_updates_unfold entry_state_simps od_keys_def)
qed

lemma get_updates_lookup:
  assumes "wf_call grads s" "all_named grads s" "i < length (dicts s grads)"
    and "dicts s grads ! i = (p, g)"
  shows "map_of (dicts (fst (get_updates grads s)) (next_addr s)) (Suc (next_addr s) + i) =
           Some (new_mean_squared_grad (self s) (Suc (next_addr s) + i) g)"
    and "map_of (dicts (fst (get_updates grads s)) (next_addr s)) p =
           Some (T_add (Shared p) (delta_x_t (self s) p (Suc (next_addr s) + i) g))"
proof -
  let ?E = "expected_updates (self s) (Suc (next_addr s)) (dicts s grads)"
  have d: "distinct (map fst (dicts s grads))"
    using assms(1) by (simp add: wf_call_def od_keys_def)
  have lt: "\<forall>q\<in>fst ` set (dicts s grads). q < Suc (next_addr s)"
    using assms(1) by (auto simp: wf_call_def od_keys_def less_Suc_eq)
  have dE: "distinct (map fst ?E)"
    using expected_updates_distinct [OF d lt] by (simp add: od_keys_def)
  have len: "2 * i < length ?E" "2 * i + 1 < length ?E"
    using assms(3) by (simp_all add: expected_updates_length)
  from expected_updates_nth [OF assms(3), of "self s" "Suc (next_addr s)"] assms(4)
  have n0: "?E ! (2 * i) =
              (Suc (next_addr s) + i, new_mean_squared_grad (self s) (Suc (next_addr s) + i) g)"
    and n1: "?E ! (2 * i + 1) =
              (p, T_add (Shared p) (delta_x_t (self s) p (Suc (next_addr s) + i) g))"
    by simp_all
  have "(Suc (next_addr s) + i, new_mean_squared_grad (self s) (Suc (next_addr s) + i) g) \<in> set ?E"
    using nth_mem [OF len(1)] n0 by simp
  then show "map_of (dicts (fst (get_updates grads s)) (next_addr s)) (Suc (next_addr s) + i) =
           Some (new_mean_squared_grad (self s) (Suc (next_addr s) + i) g)"
    using dE by (simp add: get_updates_dict [OF assms(1,2)])
  have "(p, T_add (Shared p) (delta_x_t (self s) p (Suc (next_addr s) + i) g)) \<in> set ?E"
    using nth_mem [OF len(2)] n1 by simp
  then show "map_of (dicts (fst (get_updates grads s)) (next_addr s)) p =
           Some (T_add (Shared p) (delta_x_t (self s) p (Suc (next_addr s) + i) g))"
    using dE by (simp add: get_updates_dict [OF assms(1,2)])
qed


lemma as_tensor_py_mul_Tensor: "as_tensor (py_mul x (Tensor g)) = T_mul (as_tensor x) g"
  by (cases x) simp_all

lemma eval_py_mul:
  "eval sh inp (as_tensor (py_mul x y)) =
     (case (eval sh inp (as_tensor x), eval sh inp (as_tensor y)) of
        (Some a, Some b) \<Rightarrow> Some (a * b) | _ \<Rightarrow> None)"
  by (cases x; cases y) simp_all

lemma eval_py_neg:
  "eval sh inp (as_tensor (py_neg x)) =
     (case eval sh inp (as_tensor x) of Some a \<Rightarrow> Some (- a) | None \<Rightarrow> None)"
  by (cases x) simp_all

lemma new_mean_squared_grad_expr:
  "new_mean_squared_grad slf ms g =
     T_add (T_mul (Const (decay slf)) (Shared ms)) (T_mul (Const (1 - decay slf)) (T_sqr g))"
  by (simp add: new_mean_squared_grad_def)

lemma delta_x_t_expr:
  "delta_x_t slf p ms g =
     T_true_div
       (T_mul (as_tensor (py_neg (py_mul (dict_get (lr_scalers slf) p (PyFloat 1))
                                         (learning_rate slf)))) g)
       (T_maximum
          (T_sqrt (T_add (T_mul (Const (decay slf)) (Shared ms))
                         (T_mul (Const (1 - decay slf)) (T_sqr g))))
          (Const (epsilon slf)))"
  by (simp add: delta_x_t_def py_div_tensor_def as_tensor_py_mul_Tensor scaled_lr_def
        rms_grad_t_def new_mean_squared_grad_def)

lemma eval_new_mean_squared_grad:
  "eval sh inp g = Some gv \<Longrightarrow>
   eval sh inp (new_mean_squared_grad slf ms g) =
     Some (decay slf * sh ms + (1 - decay slf) * (gv * gv))"
  by (simp add: new_mean_squared_grad_expr)

lemma eval_rms_grad_t:
  assumes "eval sh inp g = Some gv" "0 \<le> decay slf * sh ms + (1 - decay slf) * (gv * gv)"
  shows "eval sh inp (rms_grad_t slf ms g) =
     Some (max (sqrt (decay slf * sh ms + (1 - decay slf) * (gv * gv))) (epsilon slf))"
  using assms by (simp add: rms_grad_t_def eval_new_mean_squared_grad)

lemma eval_delta_x_t:
  assumes "eval sh inp (as_tensor (dict_get (lr_scalers slf) p (PyFloat 1))) = Some sc"
    and "eval sh inp (as_tensor (learning_rate slf)) = Some lr"
    and "eval sh inp g = Some gv"
    and "0 \<le> decay slf * sh ms + (1 - decay slf) * (gv * gv)"
    and "0 < epsilon slf"
  shows "eval sh inp (delta_x_t slf p ms g) =
     Some (- (sc * lr) * gv /
             max (sqrt (decay slf * sh ms + (1 - decay slf) * (gv * gv))) (epsilon slf))"
proof -
  have "epsilon slf \<le> max (sqrt (decay slf * sh ms + (1 - decay slf) * (gv * gv))) (epsilon slf)"
    by (rule max.cobounded2)
  with assms(5)
  have nz: "max (sqrt (decay slf * sh ms + (1 - decay slf) * (gv * gv))) (epsilon slf) \<noteq> 0"
    by linarith
  have num: "eval sh inp (as_tensor (py_mul (py_neg (scaled_lr slf p)) (Tensor g))) =
               Some (- (sc * lr) * gv)"
    using assms(1,2,3) by (simp add: eval_py_mul eval_py_neg scaled_lr_def)
  show ?thesis
    using nz num eval_rms_grad_t [OF assms(3,4)]
    by (simp add: delta_x_t_def py_div_tensor_def)
qed

lemma loop_accumulator:
  assumes "gr \<noteq> u" "\<forall>p\<in>set ps. good_param gr s p" "i < length ps"
    and "var_name (vars s (ps ! i)) = Some nm"
  shows "vars (fst (get_updates_loop gr u ps s)) (next_addr s + i) =
           \<lparr>var_name = Some (''mean_square_grad_'' @ nm),
            var_value = ndarray_mul_scalar (var_value (vars s (ps ! i))) 0\<rparr>"
  using assms
proof (induction ps arbitrary: s i)
  case Nil
  then show ?case by simp
next
  case (Cons p ps)
  let ?s' = "fst (get_updates_body gr u p s)"
  have gp: "good_param gr s p" using Cons.prems(2) by simp
  have ok: "snd (get_updates_body gr u p s) = Inr u"
    using gp by (rule body_good)
  have good': "\<forall>q\<in>set ps. good_param gr ?s' q"
    using Cons.prems(1,2) by (simp add: good_param_body)
  have unf: "get_updates_loop gr u (p # ps) s = get_updates_loop gr u ps ?s'"
    by (simp add: loop_unfold ok)
  show ?case
  proof (cases i)
    case 0
    from gp Cons.prems(4) 0 obtain g where pn: "p \<noteq> next_addr s"
      and nm: "var_name (vars s p) = Some nm" and g: "map_of (dicts s gr) p = Some g"
      by (auto simp: good_param_def)
    have "next_addr s < next_addr ?s'" by (simp add: body_next_addr)
    then have "vars (fst (get_updates_loop gr u ps ?s')) (next_addr s) = vars ?s' (next_addr s)"
      by (rule loop_vars_old)
    then show ?thesis
      using 0 by (simp add: unf body_named(4) [OF pn nm g])
  next
    case (Suc j)
    then have j: "j < length ps" using Cons.prems(3) by simp
    have "ps ! j \<in> set ps" using j by simp
    then have "good_param gr s (ps ! j)" using Cons.prems(2) by simp
    then have ne: "ps ! j \<noteq> next_addr s" by (simp add: good_param_def)
    have nm': "var_name (vars ?s' (ps ! j)) = Some nm"
      using Cons.prems(4) Suc ne by (simp add: body_vars_old)
    from Cons.IH [OF Cons.prems(1) good' j nm'] ne
    show ?thesis
      using Suc by (simp add: unf body_next_addr body_vars_old)
  qed
qed

lemma get_updates_accumulator:
  assumes "wf_call grads s" "all_named grads s" "i < length (dicts s grads)"
    and "var_name (vars s (fst (dicts s grads ! i))) = Some nm"
  shows "vars (fst (get_updates grads s)) (Suc (next_addr s) + i) =
           \<lparr>var_name = Some (''mean_square_grad_'' @ nm),
            var_value = ndarray_mul_scalar (var_value (vars s (fst (dicts s grads ! i)))) 0\<rparr>"
proof -
  have ne: "grads \<noteq> next_addr s" using assms(1) by (simp add: wf_call_def)
  have good: "\<forall>p\<in>set (od_keys (dicts s grads)). good_param grads (entry_state s) p"
    using assms by (simp add: wf_good)
  have i: "i < length (od_keys (dicts s grads))" using assms(3) by (simp add: od_keys_def)
  have nm: "var_name (vars (entry_state s) (od_keys (dicts s grads) ! i)) = Some nm"
    using assms(3,4) by (simp add: entry_state_simps od_keys_def)
  from loop_accumulator [OF ne good i nm] ne assms(3) show ?thesis
    by (simp add: get_updates_unfold entry_state_simps od_keys_def)
qed


lemma ex_state_wf: "wf_call 2 ex_state \<and> all_named 2 ex_state"
  by (simp add: wf_call_def all_named_def ex_state_def od_keys_def)


lemma loop_append:
  "get_updates_loop gr u (xs @ ys) s =
     (case snd (get_updates_loop gr u xs s) of
        Inl e \<Rightarrow> get_updates_loop gr u xs s
      | Inr _ \<Rightarrow> get_updates_loop gr u ys (fst (get_updates_loop gr u xs s)))"
proof (induction xs arbitrary: s)
  case Nil
  show ?case by simp
next
  case (Cons x xs)
  show ?case
  proof (cases "snd (get_updates_body gr u x s)")
    case (Inl e)
    then show ?thesis by (simp add: loop_unfold)
  next
    case (Inr r)
    then show ?thesis by (simp add: loop_unfold Cons.IH split: sum.splits)
  qed
qed

lemma loop_first_unnamed:
  assumes "gr \<noteq> u" "\<forall>q\<in>set pre. good_param gr s q"
    and "p < next_addr s" "var_name (vars s p) = None"
  shows "snd (get_updates_loop gr u (pre @ p # post) s) =
           Inl (ValueError ''Model parameters must be named.'')"
    and "self (fst (get_updates_loop gr u (pre @ p # post) s)) =
           self (fst (get_updates_loop gr u pre s))"
    and "next_addr (fst (get_updates_loop gr u (pre @ p # post) s)) =
           Suc (next_addr s + length pre)"
    and "a < next_addr s + length pre \<Longrightarrow>
         vars (fst (get_updates_loop gr u (pre @ p # post) s)) a =
           vars (fst (get_updates_loop gr u pre s)) a"
proof -
  let ?t = "fst (get_updates_loop gr u pre s)"
  from loop_good [OF assms(1,2)]
  have ok: "snd (get_updates_loop gr u pre s) = Inr u"
    and nx: "next_addr ?t = next_addr s + length pre"
    by simp_all
  have pn: "p \<noteq> next_addr ?t" using assms(3) nx by simp
  have un: "var_name (vars ?t p) = None"
    using assms(3,4) by (simp add: loop_vars_old)
  have step: "get_updates_loop gr u (pre @ p # post) s =
                (fst (get_updates_body gr u p ?t), Inl (ValueError ''Model parameters must be named.''))"
    using body_unnamed [OF pn un, of gr u]
    by (simp add: loop_append ok loop_unfold)
  show "snd (get_updates_loop gr u (pre @ p # post) s) =
           Inl (ValueError ''Model parameters must be named.'')"
    by (simp add: step)
  show "self (fst (get_updates_loop gr u (pre @ p # post) s)) = self ?t"
    using body_unnamed [OF pn un, of gr u] by (simp add: step)
  show "next_addr (fst (get_updates_loop gr u (pre @ p # post) s)) =
           Suc (next_addr s + length pre)"
    by (simp add: step body_next_addr nx)
  show "vars (fst (get_updates_loop gr u (pre @ p # post) s)) a = vars ?t a"
    if "a < next_addr s + length pre"
    using that nx by (simp add: step body_vars_old)
qed

lemma loop_stored:
  assumes "gr \<noteq> u" "\<forall>p\<in>set ps. good_param gr s p"
  shows "mean_square_grads (self (fst (get_updates_loop gr u ps s))) =
           stored_after (mean_square_grads (self s)) (next_addr s)
             (map (\<lambda>p. the (var_name (vars s p))) ps)"
  using assms
proof (induction ps arbitrary: s)
  case Nil
  show ?case by simp
next
  case (Cons p ps)
  let ?s' = "fst (get_updates_body gr u p s)"
  from Cons.prems(2) obtain nm g where pn: "p \<noteq> next_addr s"
    and nm: "var_name (vars s p) = Some nm" and g: "map_of (dicts s gr) p = Some g"
    by (auto simp: good_param_def)
  have ok: "snd (get_updates_body gr u p s) = Inr u"
    using pn nm g by (rule body_named(1))
  have good': "\<forall>q\<in>set ps. good_param gr ?s' q"
    using Cons.prems by (simp add: good_param_body)
  have same: "map (\<lambda>q. the (var_name (vars ?s' q))) ps = map (\<lambda>q. the (var_name (vars s q))) ps"
    using Cons.prems(2) by (auto simp: good_param_def body_vars_old)
  from Cons.IH [OF Cons.prems(1) good'] show ?case
    by (simp add: loop_unfold ok body_named(3) [OF pn nm g] body_next_addr same nm)
qed

lemma stored_after_other:
  "nm \<notin> set nms \<Longrightarrow> map_of (stored_after m n nms) nm = map_of m nm"
  by (induction nms arbitrary: m n) (auto simp: map_of_od_set)

lemma stored_after_last:
  "j < length nms \<Longrightarrow> nms ! j \<notin> set (drop (Suc j) nms) \<Longrightarrow>
   map_of (stored_after m n nms) (nms ! j) = Some (n + j)"
proof (induction nms arbitrary: m n j)
  case Nil
  then show ?case by simp
next
  case (Cons x xs)
  show ?case
  proof (cases j)
    case 0
    with Cons.prems show ?thesis
      by (simp add: stored_after_other map_of_od_set)
  next
    case (Suc k)
    with Cons.prems Cons.IH [of k "od_set x n m" "Suc n"] show ?thesis
      by simp
  qed
qed

lemma stored_after_some:
  "nm \<in> set nms \<Longrightarrow>
   \<exists>j<length nms. nms ! j = nm \<and> map_of (stored_after m n nms) nm = Some (n + j)"
proof (induction nms arbitrary: m n)
  case Nil
  then show ?case by simp
next
  case (Cons x xs)
  show ?case
  proof (cases "nm \<in> set xs")
    case True
    from Cons.IH [OF True, of "od_set x n m" "Suc n"]
    obtain j where "j < length xs" "xs ! j = nm"
      "map_of (stored_after (od_set x n m) (Suc n) xs) nm = Some (Suc n + j)"
      by blast
    then have "Suc j < length (x # xs) \<and> (x # xs) ! Suc j = nm \<and>
               map_of (stored_after m n (x # xs)) nm = Some (n + Suc j)"
      by simp
    then show ?thesis by blast
  next
    case False
    with Cons.prems have "x = nm" by simp
    with False have "0 < length (x # xs) \<and> (x # xs) ! 0 = nm \<and>
               map_of (stored_after m n (x # xs)) nm = Some (n + 0)"
      by (simp add: stored_after_other map_of_od_set)
    then show ?thesis by blast
  qed
qed


lemma get_updates_same_hyper: "same_hyper (self (fst (get_updates grads s))) (self s)"
  using loop_same_hyper [of grads "next_addr s" _ "entry_state s"]
  by (simp add: get_updates_unfold entry_state_simps)

lemma get_updates_vars_old:
  "a < next_addr s \<Longrightarrow> vars (fst (get_updates grads s)) a = vars s a"
  by (simp add: get_updates_unfold loop_vars_old entry_state_simps)

lemma get_updates_dicts_old:
  "a < next_addr s \<Longrightarrow> dicts (fst (get_updates grads s)) a = dicts s a"
  by (simp add: get_updates_unfold loop_dicts_other entry_state_simps)

lemma get_updates_first_unnamed:
  assumes "wf_call grads s" and "od_keys (dicts s grads) = pre @ p # post"
    and "\<forall>q\<in>set pre. var_name (vars s q) \<noteq> None" and "var_name (vars s p) = None"
  shows "snd (get_updates grads s) = Inl (ValueError ''Model parameters must be named.'')"
    and "next_addr (fst (get_updates grads s)) = Suc (Suc (next_addr s) + length pre)"
    and "mean_square_grads (self (fst (get_updates grads s))) =
           stored_after (mean_square_grads (self s)) (Suc (next_addr s))
             (map (\<lambda>q. the (var_name (vars s q))) pre)"
    and "j < length pre \<Longrightarrow> var_name (vars s (pre ! j)) = Some nm \<Longrightarrow>
         vars (fst (get_updates grads s)) (Suc (next_addr s) + j) =
           \<lparr>var_name = Some (''mean_square_grad_'' @ nm),
            var_value = ndarray_mul_scalar (var_value (vars s (pre ! j))) 0\<rparr>"
proof -
  let ?e = "entry_state s"
  have ne: "grads \<noteq> next_addr s" using assms(1) by (simp add: wf_call_def)
  have keys: "od_keys (dicts ?e grads) = pre @ p # post"
    using ne assms(2) by (simp add: entry_state_simps)
  have inkeys: "set pre \<subseteq> set (od_keys (dicts s grads))" "p \<in> set (od_keys (dicts s grads))"
    using assms(2) by auto
  have good: "\<forall>q\<in>set pre. good_param grads ?e q"
  proof
    fix q assume q: "q \<in> set pre"
    then have "q \<in> set (od_keys (dicts s grads))" using inkeys by auto
    then have "q < next_addr s" "map_of (dicts s grads) q \<noteq> None"
      using assms(1) by (auto simp: wf_call_def dest: map_of_keys)
    then show "good_param grads ?e q"
      using q assms(3) ne by (simp add: good_param_def entry_state_simps)
  qed
  have p: "p < next_addr ?e" "var_name (vars ?e p) = None"
    using assms(1,4) inkeys(2) by (auto simp: wf_call_def entry_state_simps less_Suc_eq)
  note fu = loop_first_unnamed [OF ne good p, where post = post]
  show "snd (get_updates grads s) = Inl (ValueError ''Model parameters must be named.'')"
    using fu(1) by (simp add: get_updates_unfold keys)
  show "next_addr (fst (get_updates grads s)) = Suc (Suc (next_addr s) + length pre)"
    using fu(3) by (simp add: get_updates_unfold keys entry_state_simps)
  show "mean_square_grads (self (fst (get_updates grads s))) =
           stored_after (mean_square_grads (self s)) (Suc (next_addr s))
             (map (\<lambda>q. the (var_name (vars s q))) pre)"
    using fu(2) loop_stored [OF ne good]
    by (simp add: get_updates_unfold keys entry_state_simps)
  show "vars (fst (get_updates grads s)) (Suc (next_addr s) + j) =
           \<lparr>var_name = Some (''mean_square_grad_'' @ nm),
            var_value = ndarray_mul_scalar (var_value (vars s (pre ! j))) 0\<rparr>"
    if j: "j < length pre" and nm: "var_name (vars s (pre ! j)) = Some nm"
  proof -
    have "vars (fst (get_updates_loop grads (next_addr s) (pre @ p # post) ?e))
            (next_addr ?e + j) =
          vars (fst (get_updates_loop grads (next_addr s) pre ?e)) (next_addr ?e + j)"
      using j by (intro fu(4)) simp
    moreover have "vars (fst (get_updates_loop grads (next_addr s) pre ?e)) (next_addr ?e + j) =
           \<lparr>var_name = Some (''mean_square_grad_'' @ nm),
            var_value = ndarray_mul_scalar (var_value (vars ?e (pre ! j))) 0\<rparr>"
      using nm by (intro loop_accumulator [OF ne good j]) (simp add: entry_state_simps)
    ultimately show ?thesis
      by (simp add: get_updates_unfold keys entry_state_simps)
  qed
qed

lemma get_updates_unnamed_raises:
  assumes "wf_call grads s" "\<not> all_named grads s"
  shows "snd (get_updates grads s) = Inl (ValueError ''Model parameters must be named.'')"
proof -
  from assms(2) have "\<exists>q\<in>set (od_keys (dicts s grads)). var_name (vars s q) = None"
    by (simp add: all_named_def)
  from split_list_first_prop [OF this]
  obtain pre p post where "od_keys (dicts s grads) = pre @ p # post"
    "var_name (vars s p) = None" "\<forall>q\<in>set pre. var_name (vars s q) \<noteq> None"
    by blast
  from get_updates_first_unnamed(1) [OF assms(1) this(1,3,2)] show ?thesis .
qed


lemma od_contains_od_set: "od_contains k (od_set k' v m) \<longleftrightarrow> k = k' \<or> od_contains k m"
  by (auto simp: od_contains_def od_keys_od_set)

lemma expected_warnings_present:
  "nm \<in> set nms \<Longrightarrow> od_contains nm m \<Longrightarrow>
   (WARNING, warning_text nm) \<in> set (expected_warnings m n nms)"
proof (induction nms arbitrary: m n)
  case Nil
  then show ?case by simp
next
  case (Cons x xs)
  show ?case
  proof (cases "x = nm")
    case True
    with Cons.prems show ?thesis by simp
  next
    case False
    with Cons.prems have "nm \<in> set xs" "od_contains nm (od_set x n m)"
      by (simp_all add: od_contains_od_set)
    from Cons.IH [OF this] show ?thesis by simp
  qed
qed








subsection \<open>The state of the optimizer parameter by parameter\<close>














section \<open>The update rule\<close>

text \<open>
  Claim C1. For a gradient dictionary whose parameters are all named, \<^verbatim>\<open>get_updates\<close>
  returns a dictionary that maps each parameter \<open>p\<close> to \<open>p + delta\<close>, where \<open>delta\<close> is the
  graph \<open>(-(lr_scalers.get(p, 1) * learning_rate) * grads[p]) /
  maximum(sqrt(decay * ms + (1 - decay) * sqr(grads[p])), epsilon)\<close> and \<open>ms\<close> is the
  accumulator created for \<open>p\<close> in this call (the variable named
  \<open>mean_square_grad_\<close> followed by the name of \<open>p\<close>). Wherever the operands have a value,
  the running average is not negative and \<open>epsilon\<close> is positive, the value of the graph
  is the one the formula gives.
\<close>

theorem get_updates_parameter_rule:
  assumes "wf_call grads s" and "all_named grads s"
    and "i < length (dicts s grads)" and "dicts s grads ! i = (p, g)"
  shows "snd (get_updates grads s) = Inr (next_addr s) \<and>
    map_of (dicts (fst (get_updates grads s)) (next_addr s)) p =
      Some (T_add (Shared p)
        (T_true_div
          (T_mul (as_tensor (py_neg (py_mul (dict_get (lr_scalers (self s)) p (PyFloat 1))
                                            (learning_rate (self s))))) g)
          (T_maximum
            (T_sqrt (T_add (T_mul (Const (decay (self s))) (Shared (Suc (next_addr s) + i)))
                           (T_mul (Const (1 - decay (self s))) (T_sqr g))))
            (Const (epsilon (self s)))))) \<and>
    var_name (vars (fst (get_updates grads s)) (Suc (next_addr s) + i)) =
      map_option (\<lambda>nm. ''mean_square_grad_'' @ nm) (var_name (vars s p)) \<and>
    (\<forall>sh inp sc lr gv.
       eval sh inp (as_tensor (dict_get (lr_scalers (self s)) p (PyFloat 1))) = Some sc \<and>
       eval sh inp (as_tensor (learning_rate (self s))) = Some lr \<and>
       eval sh inp g = Some gv \<and>
       0 \<le> decay (self s) * sh (Suc (next_addr s) + i) + (1 - decay (self s)) * (gv * gv) \<and>
       0 < epsilon (self s) \<longrightarrow>
       map_option (eval sh inp)
         (map_of (dicts (fst (get_updates grads s)) (next_addr s)) p) =
       Some (Some (sh p + - (sc * lr) * gv /
          max (sqrt (decay (self s) * sh (Suc (next_addr s) + i) +
                     (1 - decay (self s)) * (gv * gv)))
              (epsilon (self s)))))"
proof -
  let ?ms = "Suc (next_addr s) + i"
  have ret: "snd (get_updates grads s) = Inr (next_addr s)"
    using assms(1,2) by (rule get_updates_returns(1))
  have upd: "map_of (dicts (fst (get_updates grads s)) (next_addr s)) p =
               Some (T_add (Shared p) (delta_x_t (self s) p ?ms g))"
    using assms by (rule get_updates_lookup(2))
  have "p \<in> set (od_keys (dicts s grads))"
    using assms(3,4) nth_mem [OF assms(3)] by (force simp: od_keys_def)
  then obtain nm where nm: "var_name (vars s p) = Some nm"
    using assms(2) by (auto simp: all_named_def)
  have "var_name (vars s (fst (dicts s grads ! i))) = Some nm"
    using nm assms(4) by simp
  from get_updates_accumulator [OF assms(1,2,3) this]
  have name: "var_name (vars (fst (get_updates grads s)) ?ms) =
                map_option (\<lambda>nm. ''mean_square_grad_'' @ nm) (var_name (vars s p))"
    by (simp add: nm)
  have val: "\<forall>sh inp sc lr gv.
       eval sh inp (as_tensor (dict_get (lr_scalers (self s)) p (PyFloat 1))) = Some sc \<and>
       eval sh inp (as_tensor (learning_rate (self s))) = Some lr \<and>
       eval sh inp g = Some gv \<and>
       0 \<le> decay (self s) * sh ?ms + (1 - decay (self s)) * (gv * gv) \<and>
       0 < epsilon (self s) \<longrightarrow>
       map_option (eval sh inp)
         (map_of (dicts (fst (get_updates grads s)) (next_addr s)) p) =
       Some (Some (sh p + - (sc * lr) * gv /
          max (sqrt (decay (self s) * sh ?ms + (1 - decay (self s)) * (gv * gv)))
              (epsilon (self s))))"
    by (simp add: upd eval_delta_x_t)
  show ?thesis
    using ret upd name val by (simp only: delta_x_t_expr simp_thms)
qed

theorem get_updates_parameter_rule_witness:
  "wf_call 2 ex_state \<and> all_named 2 ex_state \<and>
   (1::nat) < length (dicts ex_state 2) \<and> dicts ex_state 2 ! 1 = (1, Input 1) \<and>
   snd (get_updates 2 ex_state) = Inr 3 \<and>
   map_of (dicts (fst (get_updates 2 ex_state)) 3) 1 =
     Some (T_add (Shared 1)
       (T_true_div (T_mul (Const (- (1 / 5))) (Input 1))
          (T_maximum
            (T_sqrt (T_add (T_mul (Const (3 / 4)) (Shared 5))
                           (T_mul (Const (1 / 4)) (T_sqr (Input 1)))))
            (Const (1 / 100000))))) \<and>
   var_name (vars (fst (get_updates 2 ex_state)) 5) = Some ''mean_square_grad_b'' \<and>
   map_option (eval (\<lambda>_. 0) (\<lambda>_. 2)) (map_of (dicts (fst (get_updates 2 ex_state)) 3) 1) =
     Some (Some (- (2 / 5)))"
proof -
  have h: "wf_call 2 ex_state" "all_named 2 ex_state"
    "(1::nat) < length (dicts ex_state 2)" "dicts ex_state 2 ! 1 = (1, Input 1)"
    using ex_state_wf by (simp_all add: ex_state_def)
  have e: "eval (\<lambda>_. 0) (\<lambda>_. 2) (as_tensor (dict_get (lr_scalers (self ex_state)) 1 (PyFloat 1))) = Some 2 \<and>
       eval (\<lambda>_. 0) (\<lambda>_. 2) (as_tensor (learning_rate (self ex_state))) = Some (1 / 10) \<and>
       eval (\<lambda>_. 0) (\<lambda>_. 2) (Input 1) = Some 2 \<and>
       0 \<le> decay (self ex_state) * (\<lambda>_. 0) (Suc (next_addr ex_state) + 1) + (1 - decay (self ex_state)) * (2 * 2) \<and>
       0 < epsilon (self ex_state)"
    by (simp add: ex_state_def ex_self_def dict_get_def)
  from get_updates_parameter_rule [OF h]
  have "snd (get_updates 2 ex_state) = Inr (next_addr ex_state)"
    and "map_of (dicts (fst (get_updates 2 ex_state)) (next_addr ex_state)) 1 =
      Some (T_add (Shared 1)
        (T_true_div
          (T_mul (as_tensor (py_neg (py_mul (dict_get (lr_scalers (self ex_state)) 1 (PyFloat 1))
                                            (learning_rate (self ex_state))))) (Input 1))
          (T_maximum
            (T_sqrt (T_add (T_mul (Const (decay (self ex_state))) (Shared (Suc (next_addr ex_state) + 1)))
                           (T_mul (Const (1 - decay (self ex_state))) (T_sqr (Input 1)))))
            (Const (epsilon (self ex_state))))))"
    and "var_name (vars (fst (get_updates 2 ex_state)) (Suc (next_addr ex_state) + 1)) =
      map_option (\<lambda>nm. ''mean_square_grad_'' @ nm) (var_name (vars ex_state 1))"
    and "\<forall>sh inp sc lr gv.
       eval sh inp (as_tensor (dict_get (lr_scalers (self ex_state)) 1 (PyFloat 1))) = Some sc \<and>
       eval sh inp (as_tensor (learning_rate (self ex_state))) = Some lr \<and>
       eval sh inp (Input 1) = Some gv \<and>
       0 \<le> decay (self ex_state) * sh (Suc (next_addr ex_state) + 1) + (1 - decay (self ex_state)) * (gv * gv) \<and>
       0 < epsilon (self ex_state) \<longrightarrow>
       map_option (eval sh inp)
         (map_of (dicts (fst (get_updates 2 ex_state)) (next_addr ex_state)) 1) =
       Some (Some (sh 1 + - (sc * lr) * gv /
          max (sqrt (decay (self ex_state) * sh (Suc (next_addr ex_state) + 1) +
                     (1 - decay (self ex_state)) * (gv * gv)))
              (epsilon (self ex_state))))"
    by blast+
  note r = this
  from r(4) e have v: "map_option (eval (\<lambda>_. 0) (\<lambda>_. 2))
         (map_of (dicts (fst (get_updates 2 ex_state)) (next_addr ex_state)) 1) =
       Some (Some ((\<lambda>_. 0) (1::nat) + - (2 * (1 / 10)) * 2 /
          max (sqrt (decay (self ex_state) * (\<lambda>_. 0) (Suc (next_addr ex_state) + 1) +
                     (1 - decay (self ex_state)) * (2 * 2)))
              (epsilon (self ex_state))))"
    by blast
  show ?thesis
    using h r(1,2,3) v by (simp add: ex_state_def ex_self_def dict_get_def)
qed

text \<open>
  Claim C2. For every parameter \<open>p\<close> of the gradient dictionary, the returned dictionary
  maps the accumulator created for \<open>p\<close> to the graph
  \<open>decay * ms + (1 - decay) * sqr(grads[p])\<close>, whose value is the exponentially decayed
  average of the squared gradient.
\<close>

theorem get_updates_accumulator_rule:
  assumes "wf_call grads s" and "all_named grads s"
    and "i < length (dicts s grads)" and "dicts s grads ! i = (p, g)"
  shows "snd (get_updates grads s) = Inr (next_addr s) \<and>
    var_name (vars (fst (get_updates grads s)) (Suc (next_addr s) + i)) =
      map_option (\<lambda>nm. ''mean_square_grad_'' @ nm) (var_name (vars s p)) \<and>
    map_of (dicts (fst (get_updates grads s)) (next_addr s)) (Suc (next_addr s) + i) =
      Some (T_add (T_mul (Const (decay (self s))) (Shared (Suc (next_addr s) + i)))
                  (T_mul (Const (1 - decay (self s))) (T_sqr g))) \<and>
    (\<forall>sh inp gv. eval sh inp g = Some gv \<longrightarrow>
       map_option (eval sh inp)
         (map_of (dicts (fst (get_updates grads s)) (next_addr s)) (Suc (next_addr s) + i)) =
       Some (Some (decay (self s) * sh (Suc (next_addr s) + i) +
                   (1 - decay (self s)) * (gv * gv))))"
proof -
  let ?ms = "Suc (next_addr s) + i"
  have ret: "snd (get_updates grads s) = Inr (next_addr s)"
    using assms(1,2) by (rule get_updates_returns(1))
  have upd: "map_of (dicts (fst (get_updates grads s)) (next_addr s)) ?ms =
               Some (new_mean_squared_grad (self s) ?ms g)"
    using assms by (rule get_updates_lookup(1))
  have "p \<in> set (od_keys (dicts s grads))"
    using assms(3,4) nth_mem [OF assms(3)] by (force simp: od_keys_def)
  then obtain nm where nm: "var_name (vars s p) = Some nm"
    using assms(2) by (auto simp: all_named_def)
  have "var_name (vars s (fst (dicts s grads ! i))) = Some nm"
    using nm assms(4) by simp
  from get_updates_accumulator [OF assms(1,2,3) this]
  have name: "var_name (vars (fst (get_updates grads s)) ?ms) =
                map_option (\<lambda>nm. ''mean_square_grad_'' @ nm) (var_name (vars s p))"
    by (simp add: nm)
  have val: "\<forall>sh inp gv. eval sh inp g = Some gv \<longrightarrow>
       map_option (eval sh inp) (map_of (dicts (fst (get_updates grads s)) (next_addr s)) ?ms) =
       Some (Some (decay (self s) * sh ?ms + (1 - decay (self s)) * (gv * gv)))"
    unfolding upd by (simp add: eval_new_mean_squared_grad)
  show ?thesis
    using ret upd name val by (simp only: new_mean_squared_grad_expr simp_thms)
qed

theorem get_updates_accumulator_rule_witness:
  "wf_call 2 ex_state \<and> all_named 2 ex_state \<and>
   (0::nat) < length (dicts ex_state 2) \<and> dicts ex_state 2 ! 0 = (0, Input 0) \<and>
   snd (get_updates 2 ex_state) = Inr 3 \<and>
   var_name (vars (fst (get_updates 2 ex_state)) 4) = Some ''mean_square_grad_W'' \<and>
   map_of (dicts (fst (get_updates 2 ex_state)) 3) 4 =
     Some (T_add (T_mul (Const (3 / 4)) (Shared 4)) (T_mul (Const (1 / 4)) (T_sqr (Input 0)))) \<and>
   map_option (eval (\<lambda>_. 8) (\<lambda>_. 2)) (map_of (dicts (fst (get_updates 2 ex_state)) 3) 4) =
     Some (Some 7)"
proof -
  have h: "wf_call 2 ex_state" "all_named 2 ex_state"
    "(0::nat) < length (dicts ex_state 2)" "dicts ex_state 2 ! 0 = (0, Input 0)"
    using ex_state_wf by (simp_all add: ex_state_def)
  have e: "eval (\<lambda>_. 8) (\<lambda>_. 2) (Input 0) = Some 2"
    by simp
  from get_updates_accumulator_rule [OF h]
  have r: "snd (get_updates 2 ex_state) = Inr (next_addr ex_state)"
    "var_name (vars (fst (get_updates 2 ex_state)) (Suc (next_addr ex_state) + 0)) =
      map_option (\<lambda>nm. ''mean_square_grad_'' @ nm) (var_name (vars ex_state 0))"
    "map_of (dicts (fst (get_updates 2 ex_state)) (next_addr ex_state)) (Suc (next_addr ex_state) + 0) =
      Some (T_add (T_mul (Const (decay (self ex_state))) (Shared (Suc (next_addr ex_state) + 0)))
                  (T_mul (Const (1 - decay (self ex_state))) (T_sqr (Input 0))))"
    "\<forall>sh inp gv. eval sh inp (Input 0) = Some gv \<longrightarrow>
       map_option (eval sh inp)
         (map_of (dicts (fst (get_updates 2 ex_state)) (next_addr ex_state)) (Suc (next_addr ex_state) + 0)) =
       Some (Some (decay (self ex_state) * sh (Suc (next_addr ex_state) + 0) +
                   (1 - decay (self ex_state)) * (gv * gv)))"
    by blast+
  from r(4) e have v: "map_option (eval (\<lambda>_. 8) (\<lambda>_. 2))
         (map_of (dicts (fst (get_updates 2 ex_state)) (next_addr ex_state)) (Suc (next_addr ex_state) + 0)) =
       Some (Some (decay (self ex_state) * (\<lambda>_. 8) (Suc (next_addr ex_state) + 0) +
                   (1 - decay (self ex_state)) * (2 * 2)))"
    by blast
  show ?thesis
    using h r(1,2,3) v by (simp add: ex_state_def ex_self_def)
qed

text \<open>
  Claim C4. For a gradient dictionary with \<open>n\<close> named parameters the returned dictionary
  has exactly \<open>2 * n\<close> entries with pairwise different keys. At position \<open>2 * i\<close> is the
  accumulator created for the \<open>i\<close>-th parameter, mapped to the graph
  \<open>decay * ms + (1 - decay) * sqr(g)\<close> of the new running average; at position
  \<open>2 * i + 1\<close> is the \<open>i\<close>-th parameter, mapped to the graph \<open>p + (-(scaler * lr) * g) /
  maximum(sqrt(decay * ms + (1 - decay) * sqr(g)), epsilon)\<close> of its new value.
\<close>

theorem get_updates_result_layout:
  assumes "wf_call grads s" and "all_named grads s"
  shows "snd (get_updates grads s) = Inr (next_addr s) \<and>
    length (dicts (fst (get_updates grads s)) (next_addr s)) = 2 * length (dicts s grads) \<and>
    distinct (od_keys (dicts (fst (get_updates grads s)) (next_addr s))) \<and>
    od_keys (dicts (fst (get_updates grads s)) (next_addr s)) =
      concat (map (\<lambda>i. [Suc (next_addr s) + i, fst (dicts s grads ! i)])
                  [0..<length (dicts s grads)]) \<and>
    (\<forall>i<length (dicts s grads).
       dicts (fst (get_updates grads s)) (next_addr s) ! (2 * i) =
         (Suc (next_addr s) + i,
          T_add (T_mul (Const (decay (self s))) (Shared (Suc (next_addr s) + i)))
                (T_mul (Const (1 - decay (self s))) (T_sqr (snd (dicts s grads ! i))))) \<and>
       dicts (fst (get_updates grads s)) (next_addr s) ! (2 * i + 1) =
         (fst (dicts s grads ! i),
          T_add (Shared (fst (dicts s grads ! i)))
            (T_true_div
              (T_mul (as_tensor (py_neg (py_mul
                        (dict_get (lr_scalers (self s)) (fst (dicts s grads ! i)) (PyFloat 1))
                        (learning_rate (self s)))))
                     (snd (dicts s grads ! i)))
              (T_maximum
                (T_sqrt (T_add (T_mul (Const (decay (self s))) (Shared (Suc (next_addr s) + i)))
                               (T_mul (Const (1 - decay (self s)))
                                      (T_sqr (snd (dicts s grads ! i))))))
                (Const (epsilon (self s)))))) \<and>
       var_name (vars (fst (get_updates grads s)) (Suc (next_addr s) + i)) =
         map_option (\<lambda>nm. ''mean_square_grad_'' @ nm)
           (var_name (vars s (fst (dicts s grads ! i)))))"
proof -
  let ?u = "dicts (fst (get_updates grads s)) (next_addr s)"
  have d: "distinct (map fst (dicts s grads))"
    using assms(1) by (simp add: wf_call_def od_keys_def)
  have lt: "\<forall>q\<in>fst ` set (dicts s grads). q < Suc (next_addr s)"
    using assms(1) by (auto simp: wf_call_def od_keys_def less_Suc_eq)
  have eq: "?u = expected_updates (self s) (Suc (next_addr s)) (dicts s grads)"
    using assms by (rule get_updates_dict)
  have names: "\<forall>i<length (dicts s grads).
      var_name (vars (fst (get_updates grads s)) (Suc (next_addr s) + i)) =
         map_option (\<lambda>nm. ''mean_square_grad_'' @ nm)
           (var_name (vars s (fst (dicts s grads ! i))))"
  proof (intro allI impI)
    fix i assume i: "i < length (dicts s grads)"
    then have "fst (dicts s grads ! i) \<in> set (od_keys (dicts s grads))"
      by (simp add: od_keys_def)
    then obtain nm where nm: "var_name (vars s (fst (dicts s grads ! i))) = Some nm"
      using assms(2) by (auto simp: all_named_def)
    from get_updates_accumulator [OF assms i nm]
    show "var_name (vars (fst (get_updates grads s)) (Suc (next_addr s) + i)) =
         map_option (\<lambda>nm. ''mean_square_grad_'' @ nm)
           (var_name (vars s (fst (dicts s grads ! i))))"
      by (simp add: nm)
  qed
  have entries: "\<forall>i<length (dicts s grads).
       ?u ! (2 * i) =
         (Suc (next_addr s) + i,
          new_mean_squared_grad (self s) (Suc (next_addr s) + i) (snd (dicts s grads ! i))) \<and>
       ?u ! (2 * i + 1) =
         (fst (dicts s grads ! i),
          T_add (Shared (fst (dicts s grads ! i)))
            (delta_x_t (self s) (fst (dicts s grads ! i)) (Suc (next_addr s) + i)
               (snd (dicts s grads ! i))))"
    unfolding eq using expected_updates_nth by blast
  have len: "length ?u = 2 * length (dicts s grads)"
    unfolding eq by (rule expected_updates_length)
  have keys: "od_keys ?u =
      concat (map (\<lambda>i. [Suc (next_addr s) + i, fst (dicts s grads ! i)])
                  [0..<length (dicts s grads)])"
    unfolding eq by (rule expected_updates_keys)
  have dist: "distinct (od_keys ?u)"
    unfolding eq using d lt by (rule expected_updates_distinct)
  have all: "\<forall>i<length (dicts s grads).
       ?u ! (2 * i) =
         (Suc (next_addr s) + i,
          T_add (T_mul (Const (decay (self s))) (Shared (Suc (next_addr s) + i)))
                (T_mul (Const (1 - decay (self s))) (T_sqr (snd (dicts s grads ! i))))) \<and>
       ?u ! (2 * i + 1) =
         (fst (dicts s grads ! i),
          T_add (Shared (fst (dicts s grads ! i)))
            (T_true_div
              (T_mul (as_tensor (py_neg (py_mul
                        (dict_get (lr_scalers (self s)) (fst (dicts s grads ! i)) (PyFloat 1))
                        (learning_rate (self s)))))
                     (snd (dicts s grads ! i)))
              (T_maximum
                (T_sqrt (T_add (T_mul (Const (decay (self s))) (Shared (Suc (next_addr s) + i)))
                               (T_mul (Const (1 - decay (self s)))
                                      (T_sqr (snd (dicts s grads ! i))))))
                (Const (epsilon (self s)))))) \<and>
       var_name (vars (fst (get_updates grads s)) (Suc (next_addr s) + i)) =
         map_option (\<lambda>nm. ''mean_square_grad_'' @ nm)
           (var_name (vars s (fst (dicts s grads ! i))))"
  proof (intro allI impI)
    fix i assume i: "i < length (dicts s grads)"
    from entries i have e: "?u ! (2 * i) =
         (Suc (next_addr s) + i,
          new_mean_squared_grad (self s) (Suc (next_addr s) + i) (snd (dicts s grads ! i)))"
      "?u ! (2 * i + 1) =
         (fst (dicts s grads ! i),
          T_add (Shared (fst (dicts s grads ! i)))
            (delta_x_t (self s) (fst (dicts s grads ! i)) (Suc (next_addr s) + i)
               (snd (dicts s grads ! i))))"
      by simp_all
    from names i have n: "var_name (vars (fst (get_updates grads s)) (Suc (next_addr s) + i)) =
         map_option (\<lambda>nm. ''mean_square_grad_'' @ nm)
           (var_name (vars s (fst (dicts s grads ! i))))"
      by simp
    show "?u ! (2 * i) =
         (Suc (next_addr s) + i,
          T_add (T_mul (Const (decay (self s))) (Shared (Suc (next_addr s) + i)))
                (T_mul (Const (1 - decay (self s))) (T_sqr (snd (dicts s grads ! i))))) \<and>
       ?u ! (2 * i + 1) =
         (fst (dicts s grads ! i),
          T_add (Shared (fst (dicts s grads ! i)))
            (T_true_div
              (T_mul (as_tensor (py_neg (py_mul
                        (dict_get (lr_scalers (self s)) (fst (dicts s grads ! i)) (PyFloat 1))
                        (learning_rate (self s)))))
                     (snd (dicts s grads ! i)))
              (T_maximum
                (T_sqrt (T_add (T_mul (Const (decay (self s))) (Shared (Suc (next_addr s) + i)))
                               (T_mul (Const (1 - decay (self s)))
                                      (T_sqr (snd (dicts s grads ! i))))))
                (Const (epsilon (self s)))))) \<and>
       var_name (vars (fst (get_updates grads s)) (Suc (next_addr s) + i)) =
         map_option (\<lambda>nm. ''mean_square_grad_'' @ nm)
           (var_name (vars s (fst (dicts s grads ! i))))"
      unfolding e n by (simp only: delta_x_t_expr new_mean_squared_grad_expr simp_thms)
  qed
  show ?thesis
    using get_updates_returns(1) [OF assms] len dist keys all
    by (intro conjI)
qed

theorem get_updates_result_layout_witness:
  "wf_call 2 ex_state \<and> all_named 2 ex_state \<and>
   snd (get_updates 2 ex_state) = Inr 3 \<and>
   length (dicts (fst (get_updates 2 ex_state)) 3) = 4 \<and>
   od_keys (dicts (fst (get_updates 2 ex_state)) 3) = [4, 0, 5, 1] \<and>
   dicts (fst (get_updates 2 ex_state)) 3 ! 0 =
     (4, T_add (T_mul (Const (3 / 4)) (Shared 4)) (T_mul (Const (1 / 4)) (T_sqr (Input 0)))) \<and>
   dicts (fst (get_updates 2 ex_state)) 3 ! 1 =
     (0, T_add (Shared 0)
           (T_true_div (T_mul (Const (- (1 / 10))) (Input 0))
              (T_maximum
                 (T_sqrt (T_add (T_mul (Const (3 / 4)) (Shared 4))
                                (T_mul (Const (1 / 4)) (T_sqr (Input 0)))))
                 (Const (1 / 100000))))) \<and>
   dicts (fst (get_updates 2 ex_state)) 3 ! 2 =
     (5, T_add (T_mul (Const (3 / 4)) (Shared 5)) (T_mul (Const (1 / 4)) (T_sqr (Input 1)))) \<and>
   dicts (fst (get_updates 2 ex_state)) 3 ! 3 =
     (1, T_add (Shared 1)
           (T_true_div (T_mul (Const (- (1 / 5))) (Input 1))
              (T_maximum
                 (T_sqrt (T_add (T_mul (Const (3 / 4)) (Shared 5))
                                (T_mul (Const (1 / 4)) (T_sqr (Input 1)))))
                 (Const (1 / 100000)))))"
proof -
  have h: "wf_call 2 ex_state" "all_named 2 ex_state"
    using ex_state_wf by simp_all
  have u: "[0..<2] = [0, Suc 0]"
    by (simp add: upt_conv_Cons)
  have n: "(0::nat) < length (dicts ex_state 2)" "(1::nat) < length (dicts ex_state 2)"
    by (simp_all add: ex_state_def)
  note r = get_updates_result_layout [OF h]
  note top = r [THEN conjunct1] r [THEN conjunct2, THEN conjunct1]
    r [THEN conjunct2, THEN conjunct2, THEN conjunct2, THEN conjunct1]
  note ent = r [THEN conjunct2, THEN conjunct2, THEN conjunct2, THEN conjunct2, rule_format]
  show ?thesis
    using h top ent [OF n(1)] ent [OF n(2)]
    by (simp add: ex_state_def ex_self_def dict_get_def u)
qed

section \<open>Values of the running average and of the denominator\<close>

text \<open>
  Claim C6. For a decay between 0 and 1, if the element of the accumulator is not
  negative and the gradient has a value, then the new running average
  \<open>decay * ms + (1 - decay) * g * g\<close> has a value that is not negative, so the square root
  of the update is defined. The accumulator starts from \<^verbatim>\<open>param.get_value() * 0.\<close>, an
  array of the same shape whose elements are all zero.
\<close>

theorem mean_square_nonnegative:
  assumes "0 \<le> decay slf" and "decay slf \<le> 1"
    and "0 \<le> sh mean_square_grad" and "eval sh inp g = Some gv"
  shows "eval sh inp (new_mean_squared_grad slf mean_square_grad g) =
           Some (decay slf * sh mean_square_grad + (1 - decay slf) * (gv * gv)) \<and>
         0 \<le> decay slf * sh mean_square_grad + (1 - decay slf) * (gv * gv) \<and>
         eval sh inp (T_sqrt (new_mean_squared_grad slf mean_square_grad g)) =
           Some (sqrt (decay slf * sh mean_square_grad + (1 - decay slf) * (gv * gv))) \<and>
         shape (ndarray_mul_scalar a 0) = shape a \<and>
         length (elems (ndarray_mul_scalar a 0)) = length (elems a) \<and>
         (\<forall>x\<in>set (elems (ndarray_mul_scalar a 0)). x = 0)"
proof -
  have "0 \<le> decay slf * sh mean_square_grad" using assms(1,3) by simp
  moreover have "0 \<le> (1 - decay slf) * (gv * gv)" using assms(2) by simp
  ultimately have nn: "0 \<le> decay slf * sh mean_square_grad + (1 - decay slf) * (gv * gv)"
    by simp
  then show ?thesis
    using assms(4) by (simp add: eval_new_mean_squared_grad ndarray_mul_scalar_def)
qed

theorem mean_square_nonnegative_witness:
  "0 \<le> decay ex_self \<and> decay ex_self \<le> 1 \<and> 0 \<le> ex_sh 4 \<and>
   eval ex_sh ex_inp (Input 0) = Some 2 \<and>
   eval ex_sh ex_inp (new_mean_squared_grad ex_self 4 (Input 0)) = Some 1 \<and>
   eval ex_sh ex_inp (T_sqrt (new_mean_squared_grad ex_self 4 (Input 0))) = Some 1 \<and>
   elems (ndarray_mul_scalar (var_value (vars ex_state 0)) 0) = [0, 0]"
proof -
  have h: "0 \<le> decay ex_self" "decay ex_self \<le> 1" "0 \<le> ex_sh 4"
    "eval ex_sh ex_inp (Input 0) = Some 2"
    by (simp_all add: ex_self_def ex_sh_def ex_inp_def)
  from mean_square_nonnegative [OF h, of "var_value (vars ex_state 0)"]
  have "eval ex_sh ex_inp (new_mean_squared_grad ex_self 4 (Input 0)) =
           Some (decay ex_self * ex_sh 4 + (1 - decay ex_self) * (2 * 2))"
    "eval ex_sh ex_inp (T_sqrt (new_mean_squared_grad ex_self 4 (Input 0))) =
           Some (sqrt (decay ex_self * ex_sh 4 + (1 - decay ex_self) * (2 * 2)))"
    "length (elems (ndarray_mul_scalar (var_value (vars ex_state 0)) 0)) =
       length (elems (var_value (vars ex_state 0)))"
    "\<forall>x\<in>set (elems (ndarray_mul_scalar (var_value (vars ex_state 0)) 0)). x = 0"
    by blast+
  then show ?thesis
    using h by (simp add: ex_self_def ex_sh_def ex_state_def ndarray_mul_scalar_def)
qed




section \<open>The constructor\<close>



section \<open>What a call changes\<close>

text \<open>
  Claim C9. A call of \<^verbatim>\<open>get_updates\<close>, whether it returns or raises, changes no attribute
  of the optimizer but \<^verbatim>\<open>mean_square_grads\<close>: \<^verbatim>\<open>learning_rate\<close>, \<^verbatim>\<open>decay\<close>,
  \<^verbatim>\<open>epsilon\<close>, \<^verbatim>\<open>max_scaling\<close> and \<^verbatim>\<open>lr_scalers\<close> are as before. It changes no
  dictionary that existed before the call, so the gradient dictionary is as before, and
  no shared variable that existed before the call, so the parameters are as before.
\<close>

theorem get_updates_frame:
  "self (fst (get_updates grads s)) =
     (self s)\<lparr>mean_square_grads := mean_square_grads (self (fst (get_updates grads s)))\<rparr> \<and>
   learning_rate (self (fst (get_updates grads s))) = learning_rate (self s) \<and>
   decay (self (fst (get_updates grads s))) = decay (self s) \<and>
   epsilon (self (fst (get_updates grads s))) = epsilon (self s) \<and>
   max_scaling (self (fst (get_updates grads s))) = max_scaling (self s) \<and>
   lr_scalers (self (fst (get_updates grads s))) = lr_scalers (self s) \<and>
   (grads < next_addr s \<longrightarrow> dicts (fst (get_updates grads s)) grads = dicts s grads) \<and>
   (\<forall>a<next_addr s. dicts (fst (get_updates grads s)) a = dicts s a \<and>
                     vars (fst (get_updates grads s)) a = vars s a)"
proof -
  have h: "same_hyper (self (fst (get_updates grads s))) (self s)"
    by (rule get_updates_same_hyper)
  then have "self (fst (get_updates grads s)) =
     (self s)\<lparr>mean_square_grads := mean_square_grads (self (fst (get_updates grads s)))\<rparr>"
    by (simp add: same_hyper_def)
  with h show ?thesis
    by (simp add: same_hyper_def get_updates_vars_old get_updates_dicts_old)
qed

theorem get_updates_frame_witness:
  "(2::nat) < next_addr ex_state \<and>
   dicts (fst (get_updates 2 ex_state)) 2 = [(0, Input 0), (1, Input 1)] \<and>
   vars (fst (get_updates 2 ex_state)) 0 =
     \<lparr>var_name = Some ''W'', var_value = \<lparr>shape = [2], elems = [1, 2]\<rparr>\<rparr> \<and>
   decay (self (fst (get_updates 2 ex_state))) = 3 / 4 \<and>
   (2::nat) < next_addr ex_unnamed_state \<and>
   dicts (fst (get_updates 2 ex_unnamed_state)) 2 = [(0, Input 0), (1, Input 1)] \<and>
   epsilon (self (fst (get_updates 2 ex_unnamed_state))) = 1 / 100000"
proof -
  have h: "(2::nat) < next_addr ex_state" "(0::nat) < next_addr ex_state"
    "(2::nat) < next_addr ex_unnamed_state"
    by (simp_all add: ex_state_def ex_unnamed_state_def)
  from get_updates_frame [of 2 ex_state] h(1,2)
  have a: "dicts (fst (get_updates 2 ex_state)) 2 = dicts ex_state 2"
    "vars (fst (get_updates 2 ex_state)) 0 = vars ex_state 0"
    "decay (self (fst (get_updates 2 ex_state))) = decay (self ex_state)"
    by blast+
  from get_updates_frame [of 2 ex_unnamed_state] h(3)
  have b: "dicts (fst (get_updates 2 ex_unnamed_state)) 2 = dicts ex_unnamed_state 2"
    "epsilon (self (fst (get_updates 2 ex_unnamed_state))) = epsilon (self ex_unnamed_state)"
    by blast+
  show ?thesis
    using h a b by (simp add: ex_state_def ex_unnamed_state_def ex_self_def)
qed

text \<open>
  Claim C5. When every parameter of the gradient dictionary is named, \<^verbatim>\<open>get_updates\<close>
  returns; otherwise it raises \<^verbatim>\<open>ValueError\<close>: it raises \<^verbatim>\<open>ValueError\<close> exactly when
  some parameter has no name. When the first parameter without a name is the \<open>i\<close>-th,
  \<open>i + 1\<close> accumulators have been created by then, the accumulators of the \<open>i\<close> earlier
  parameters are named, and \<^verbatim>\<open>self.mean_square_grads\<close> holds under each earlier name
  an accumulator made in this call for a parameter of that name.
\<close>

theorem get_updates_raises:
  assumes "wf_call grads s"
  shows "(all_named grads s \<longrightarrow> snd (get_updates grads s) = Inr (next_addr s)) \<and>
    (\<not> all_named grads s \<longrightarrow>
       snd (get_updates grads s) = Inl (ValueError ''Model parameters must be named.'')) \<and>
    ((\<exists>msg. snd (get_updates grads s) = Inl (ValueError msg)) \<longleftrightarrow>
       (\<exists>p\<in>set (od_keys (dicts s grads)). var_name (vars s p) = None)) \<and>
    (\<forall>i<length (dicts s grads).
       (\<forall>j<i. var_name (vars s (fst (dicts s grads ! j))) \<noteq> None) \<and>
       var_name (vars s (fst (dicts s grads ! i))) = None \<longrightarrow>
       next_addr (fst (get_updates grads s)) = Suc (Suc (next_addr s) + i) \<and>
       (\<forall>j<i. \<exists>nm.
          var_name (vars s (fst (dicts s grads ! j))) = Some nm \<and>
          vars (fst (get_updates grads s)) (Suc (next_addr s) + j) =
            \<lparr>var_name = Some (''mean_square_grad_'' @ nm),
             var_value = ndarray_mul_scalar (var_value (vars s (fst (dicts s grads ! j)))) 0\<rparr> \<and>
          (\<exists>k<i. var_name (vars s (fst (dicts s grads ! k))) = Some nm \<and>
             map_of (mean_square_grads (self (fst (get_updates grads s)))) nm =
               Some (Suc (next_addr s) + k))))"
proof -
  have named: "all_named grads s \<longrightarrow> snd (get_updates grads s) = Inr (next_addr s)"
    using assms by (simp add: get_updates_returns(1))
  have unnamed: "\<not> all_named grads s \<longrightarrow>
       snd (get_updates grads s) = Inl (ValueError ''Model parameters must be named.'')"
    using assms by (simp add: get_updates_unnamed_raises)
  have iff: "(\<exists>msg. snd (get_updates grads s) = Inl (ValueError msg)) \<longleftrightarrow>
       (\<exists>p\<in>set (od_keys (dicts s grads)). var_name (vars s p) = None)"
  proof (cases "all_named grads s")
    case True
    with named show ?thesis by (simp add: all_named_def)
  next
    case False
    with unnamed show ?thesis by (simp add: all_named_def)
  qed
  have partial: "next_addr (fst (get_updates grads s)) = Suc (Suc (next_addr s) + i) \<and>
       (\<forall>j<i. \<exists>nm.
          var_name (vars s (fst (dicts s grads ! j))) = Some nm \<and>
          vars (fst (get_updates grads s)) (Suc (next_addr s) + j) =
            \<lparr>var_name = Some (''mean_square_grad_'' @ nm),
             var_value = ndarray_mul_scalar (var_value (vars s (fst (dicts s grads ! j)))) 0\<rparr> \<and>
          (\<exists>k<i. var_name (vars s (fst (dicts s grads ! k))) = Some nm \<and>
             map_of (mean_square_grads (self (fst (get_updates grads s)))) nm =
               Some (Suc (next_addr s) + k)))"
    if i: "i < length (dicts s grads)"
      and before: "\<forall>j<i. var_name (vars s (fst (dicts s grads ! j))) \<noteq> None"
      and here: "var_name (vars s (fst (dicts s grads ! i))) = None"
    for i
  proof -
    let ?keys = "od_keys (dicts s grads)"
    let ?pre = "take i ?keys"
    let ?names = "map (\<lambda>q. the (var_name (vars s q))) ?pre"
    have ilen: "i < length ?keys" using i by (simp add: od_keys_def)
    have split: "?keys = ?pre @ (?keys ! i) # drop (Suc i) ?keys"
      using ilen by (rule id_take_nth_drop)
    have nth: "?keys ! j = fst (dicts s grads ! j)" if "j \<le> i" for j
      using that i by (simp add: od_keys_def)
    have len: "length ?pre = i" using ilen by simp
    have pre_nth: "?pre ! j = fst (dicts s grads ! j)" if "j < i" for j
      using that nth [of j] by simp
    have pre_named: "\<forall>q\<in>set ?pre. var_name (vars s q) \<noteq> None"
    proof
      fix q assume "q \<in> set ?pre"
      then obtain j where "j < i" "q = ?pre ! j"
        using len by (metis in_set_conv_nth)
      then show "var_name (vars s q) \<noteq> None"
        using before pre_nth by simp
    qed
    have here': "var_name (vars s (?keys ! i)) = None"
      using here nth [of i] by simp
    note fu = get_updates_first_unnamed [OF assms split pre_named here']
    have each: "\<exists>nm.
          var_name (vars s (fst (dicts s grads ! j))) = Some nm \<and>
          vars (fst (get_updates grads s)) (Suc (next_addr s) + j) =
            \<lparr>var_name = Some (''mean_square_grad_'' @ nm),
             var_value = ndarray_mul_scalar (var_value (vars s (fst (dicts s grads ! j)))) 0\<rparr> \<and>
          (\<exists>k<i. var_name (vars s (fst (dicts s grads ! k))) = Some nm \<and>
             map_of (mean_square_grads (self (fst (get_updates grads s)))) nm =
               Some (Suc (next_addr s) + k))"
      if j: "j < i" for j
    proof -
      from before j obtain nm where nm: "var_name (vars s (fst (dicts s grads ! j))) = Some nm"
        by auto
      have jl: "j < length ?pre" using j len by simp
      have nm': "var_name (vars s (?pre ! j)) = Some nm"
        using nm pre_nth [OF j] by simp
      have acc: "vars (fst (get_updates grads s)) (Suc (next_addr s) + j) =
            \<lparr>var_name = Some (''mean_square_grad_'' @ nm),
             var_value = ndarray_mul_scalar (var_value (vars s (fst (dicts s grads ! j)))) 0\<rparr>"
        using fu(4) [OF jl nm'] pre_nth [OF j] by simp
      have "?names ! j = nm" using jl nm' by simp
      then have "nm \<in> set ?names"
        using jl by (metis length_map nth_mem)
      from stored_after_some [OF this, of "mean_square_grads (self s)" "Suc (next_addr s)"]
      obtain k where k: "k < length ?names" "?names ! k = nm"
        "map_of (stored_after (mean_square_grads (self s)) (Suc (next_addr s)) ?names) nm =
           Some (Suc (next_addr s) + k)"
        by blast
      have ki: "k < i" using k(1) len by simp
      have "var_name (vars s (?pre ! k)) \<noteq> None"
        using pre_named ki len by (metis nth_mem)
      then have "var_name (vars s (fst (dicts s grads ! k))) = Some nm"
        using k(2) ki len pre_nth [OF ki] by auto
      with k(3) ki fu(3) nm acc show ?thesis by auto
    qed
    show ?thesis using fu(2) len each by simp
  qed
  show ?thesis
    using named unnamed iff partial by blast
qed

theorem get_updates_raises_witness:
  "wf_call 2 ex_unnamed_state \<and> \<not> all_named 2 ex_unnamed_state \<and>
   snd (get_updates 2 ex_unnamed_state) = Inl (ValueError ''Model parameters must be named.'') \<and>
   next_addr (fst (get_updates 2 ex_unnamed_state)) = 6 \<and>
   (\<exists>nm. var_name (vars ex_unnamed_state 0) = Some nm \<and>
      vars (fst (get_updates 2 ex_unnamed_state)) 4 =
        \<lparr>var_name = Some (''mean_square_grad_'' @ nm),
         var_value = \<lparr>shape = [2], elems = [0, 0]\<rparr>\<rparr> \<and>
      map_of (mean_square_grads (self (fst (get_updates 2 ex_unnamed_state)))) nm = Some 4) \<and>
   wf_call 2 ex_state \<and> all_named 2 ex_state \<and> snd (get_updates 2 ex_state) = Inr 3"
proof -
  have h: "wf_call 2 ex_unnamed_state" "\<not> all_named 2 ex_unnamed_state"
    by (simp_all add: wf_call_def all_named_def ex_unnamed_state_def ex_state_def od_keys_def)
  have i: "(1::nat) < length (dicts ex_unnamed_state 2)"
    "\<forall>j<1. var_name (vars ex_unnamed_state (fst (dicts ex_unnamed_state 2 ! j))) \<noteq> None"
    "var_name (vars ex_unnamed_state (fst (dicts ex_unnamed_state 2 ! 1))) = None"
    by (simp_all add: ex_unnamed_state_def ex_state_def)
  from get_updates_raises [OF h(1)] h(2)
  have r: "snd (get_updates 2 ex_unnamed_state) =
             Inl (ValueError ''Model parameters must be named.'')"
    by blast
  from get_updates_raises [OF h(1)] i
  have p: "next_addr (fst (get_updates 2 ex_unnamed_state)) =
             Suc (Suc (next_addr ex_unnamed_state) + 1) \<and>
       (\<forall>j<1. \<exists>nm.
          var_name (vars ex_unnamed_state (fst (dicts ex_unnamed_state 2 ! j))) = Some nm \<and>
          vars (fst (get_updates 2 ex_unnamed_state)) (Suc (next_addr ex_unnamed_state) + j) =
            \<lparr>var_name = Some (''mean_square_grad_'' @ nm),
             var_value = ndarray_mul_scalar
               (var_value (vars ex_unnamed_state (fst (dicts ex_unnamed_state 2 ! j)))) 0\<rparr> \<and>
          (\<exists>k<1. var_name (vars ex_unnamed_state (fst (dicts ex_unnamed_state 2 ! k))) = Some nm \<and>
             map_of (mean_square_grads (self (fst (get_updates 2 ex_unnamed_state)))) nm =
               Some (Suc (next_addr ex_unnamed_state) + k)))"
    by blast
  from get_updates_raises [of 2 ex_state] ex_state_wf
  have n: "snd (get_updates 2 ex_state) = Inr (next_addr ex_state)"
    by blast
  show ?thesis
    using h r p n ex_state_wf
    by (simp add: ex_unnamed_state_def ex_state_def ndarray_mul_scalar_def)
qed

section \<open>The accumulators\<close>




end
